theory Spec2Isabelle
  imports Complex_Main "HOL-Library.Word" "HOL-Library.Signed_Division" "HOL-Library.Sublist"
begin

section \<open>Machine integers of Plotter.hpp\<close>

text \<open>
  The fields \<open>_table_width\<close>, \<open>_column_width\<close>, \<open>_size\<close>, \<open>_cols\<close>, \<open>_rows\<close> and
  \<open>_precision\<close> are \<open>unsigned int\<close>: 32-bit words whose arithmetic wraps. Expressions that
  mix them with \<open>std::string::length()\<close> are computed in \<open>size_t\<close>, taken as 64 bits
  (LP64). The two helpers \<open>calculate_rows\<close> and \<open>calculate_column_width\<close> take and return
  \<open>int\<close>: an \<open>unsigned int\<close> argument reaches them through the conversion to \<open>int\<close>
  (\<open>sint\<close>, the two's complement reading), and their result goes back into the unsigned
  field modulo \<open>2 ^ 32\<close> (\<open>word_of_int\<close>).
\<close>

type_synonym uint = "32 word"
type_synonym size_t = "64 word"

definition INT_MIN :: int where
  "INT_MIN = - (2 ^ 31)"


text \<open>
  Arithmetic on \<open>int\<close>. Addition and subtraction give the two's complement result
  (signed overflow is undefined in C++; the model takes what the usual targets compute).
  Division truncates towards zero; a zero divisor and \<open>INT_MIN / -1\<close> trap, which is
  \<open>None\<close>.
\<close>

definition wrap_int :: "int \<Rightarrow> int" where
  "wrap_int x = sint (word_of_int x :: uint)"

definition int_add :: "int \<Rightarrow> int \<Rightarrow> int" where
  "int_add a b = wrap_int (a + b)"

definition int_sub :: "int \<Rightarrow> int \<Rightarrow> int" where
  "int_sub a b = wrap_int (a - b)"

definition int_div :: "int \<Rightarrow> int \<Rightarrow> int option" where
  "int_div a b =
     (if b = 0 \<or> (a = INT_MIN \<and> b = - 1) then None else Some (a sdiv b))"

section \<open>The class Plotter\<close>

datatype DataArrangement = ColumnMajor | RowMajor

text \<open>
  Exceptions that the code throws or that the library throws under it, each with the text
  of \<open>what()\<close>; \<open>Other_exception\<close> stands for a thrown value that is not a
  \<open>std::exception\<close>, the one the handler \<open>catch (...)\<close> is for.
\<close>

datatype exn = Invalid_argument string | Length_error string | Other_exception

text \<open>How a call can end without returning: an exception leaves it, or its behaviour is
  undefined (a trapping division, a read outside the buffer).\<close>

datatype failure = Thrown exn | Undefined_behaviour

text \<open>
  \<open>T* _data\<close> is \<open>None\<close> for the null pointer and \<open>Some buf\<close> for a pointer to the first
  element of an array holding exactly the elements of \<open>buf\<close>. \<open>_table\<close> is the text
  accumulated in the string stream.
\<close>

record 'a Plotter =
  m_table :: string
  m_data :: "'a list option"
  m_data_arrangement :: DataArrangement
  m_column_names :: "string list"
  m_name :: string
  m_table_width :: uint
  m_column_width :: uint
  m_size :: uint
  m_cols :: uint
  m_rows :: uint
  m_precision :: uint

definition validate_inputs_throw_exception ::
  "'a list option \<Rightarrow> string list \<Rightarrow> uint \<Rightarrow> uint \<Rightarrow> exn option" where
  "validate_inputs_throw_exception data column_names table_width sz =
     (if data = None then
        Some (Invalid_argument ''Plotter: data pointer cannot be null.'')
      else if column_names = [] then
        Some (Invalid_argument ''Plotter: column names vector cannot be empty.'')
      else if table_width = 0 then
        Some (Invalid_argument ''Plotter: table width cannot be zero.'')
      else if sz = 0 then
        Some (Invalid_argument ''Plotter: size cannot be zero.'')
      else None)"

definition calculate_column_width :: "int \<Rightarrow> int \<Rightarrow> int option" where
  "calculate_column_width table_width cols =
     int_div (int_sub table_width (int_add cols 1)) cols"

definition calculate_rows :: "int \<Rightarrow> int \<Rightarrow> int option" where
  "calculate_rows sz column_count = int_div sz column_count"

text \<open>
  The constructor. The member initialisers come first, then the validation (which reads
  the four members \<open>_data\<close>, \<open>_column_names\<close>, \<open>_table_width\<close> and \<open>_size\<close>, its
  arguments here), then the derived fields; \<open>column_names.size()\<close> is a \<open>size_t\<close> stored
  into the 32-bit \<open>_cols\<close>.
\<close>

definition Plotter_ctor ::
  "'a list option \<Rightarrow> string \<Rightarrow> string list \<Rightarrow> uint \<Rightarrow> uint \<Rightarrow> DataArrangement
     \<Rightarrow> failure + 'a Plotter" where
  "Plotter_ctor data name column_names table_width sz data_arrangement =
     (case validate_inputs_throw_exception data column_names table_width sz of
        Some e \<Rightarrow> Inl (Thrown e)
      | None \<Rightarrow>
          (let cols = (of_nat (length column_names) :: uint) in
           case calculate_rows (sint sz) (sint cols) of
             None \<Rightarrow> Inl Undefined_behaviour
           | Some rows \<Rightarrow>
               (case calculate_column_width (sint table_width) (sint cols) of
                  None \<Rightarrow> Inl Undefined_behaviour
                | Some column_width \<Rightarrow>
                    Inr \<lparr> m_table = [], m_data = data,
                          m_data_arrangement = data_arrangement,
                          m_column_names = column_names, m_name = name,
                          m_table_width = table_width,
                          m_column_width = word_of_int column_width,
                          m_size = sz, m_cols = cols,
                          m_rows = word_of_int rows, m_precision = 8 \<rparr>)))"

section \<open>Conversions and library calls used by the rendering\<close>

definition int_of_uint :: "uint \<Rightarrow> int" where
  "int_of_uint w = sint w"

definition uint_of_int :: "int \<Rightarrow> uint" where
  "uint_of_int k = word_of_int k"

definition size_t_of_uint :: "uint \<Rightarrow> size_t" where
  "size_t_of_uint w = ucast w"

definition size_t_of_int :: "int \<Rightarrow> size_t" where
  "size_t_of_int k = word_of_int k"

definition int_of_size_t :: "size_t \<Rightarrow> int" where
  "int_of_size_t w = sint (ucast w :: uint)"

definition newline :: string where
  "newline = [CHR 0x0A]"

text \<open>
  \<open>std::string(n, c)\<close>: \<open>n\<close> copies of \<open>c\<close>, or \<open>std::length_error\<close> when \<open>n\<close> exceeds
  \<open>max_size()\<close> (the value and the message are those of libstdc++; every count the
  program passes is either below \<open>2 ^ 32\<close> or a negative \<open>int\<close> turned into a
  \<open>size_t\<close>, at least \<open>2 ^ 64 - 2 ^ 31\<close>). Memory is taken to suffice.
\<close>

definition string_max_size :: nat where
  "string_max_size = 2 ^ 62 - 1"

definition std_string :: "size_t \<Rightarrow> char \<Rightarrow> exn + string" where
  "std_string n c =
     (if unat n > string_max_size then Inl (Length_error ''basic_string::_M_create'')
      else Inr (replicate (unat n) c))"

text \<open>
  The field width of \<open>std::setw(w)\<close> on the next insertion: with the default adjustment
  the fill characters go in front of the text, and no text is ever cut.
\<close>

definition setw :: "int \<Rightarrow> string \<Rightarrow> string" where
  "setw w s = replicate (nat (w - int (length s))) CHR '' '' @ s"

text \<open>Decimal digits of an unsigned number, as \<open>operator<<\<close> writes it.\<close>

definition digit_char :: "nat \<Rightarrow> char" where
  "digit_char d = char_of (of_char CHR ''0'' + d)"

fun show_nat :: "nat \<Rightarrow> string" where
  "show_nat n =
     (if n < 10 then [digit_char n]
      else show_nat (n div 10) @ [digit_char (n mod 10)])"

declare show_nat.simps [simp del]

text \<open>
  What the element type \<open>T\<close> provides: the text of
  \<open>os << std::setprecision(p) << std::fixed << v\<close> at width 0, the text of \<open>os << v\<close> on a
  fresh stream, and the value \<open>T()\<close>.
\<close>

record 'a T_ops =
  fixed_text :: "nat \<Rightarrow> 'a \<Rightarrow> string"
  plain_text :: "'a \<Rightarrow> string"
  T_default :: 'a

section \<open>The element types\<close>

text \<open>
  The class is instantiated for \<open>int\<close>, \<open>double\<close>, \<open>float\<close> and \<open>std::string\<close>. An
  \<open>int\<close> prints as its decimal digits whatever the stream's flags; a string prints as it
  is. A finite \<open>double\<close> or \<open>float\<close> other than the negative zero is taken as the
  rational number it holds:
  \<open>std::fixed\<close> with precision \<open>p\<close> prints it rounded to \<open>p\<close> decimals (\<open>%.pf\<close>), a
  fresh stream prints it with 6 significant digits in the shorter of the two notations
  (\<open>%g\<close>), both rounding the exact value to nearest, ties to even.
\<close>

definition show_int :: "int \<Rightarrow> string" where
  "show_int k = (if k < 0 then ''-'' @ show_nat (nat (- k)) else show_nat (nat k))"

definition round_half_even :: "rat \<Rightarrow> int" where
  "round_half_even q =
     (let f = \<lfloor>q\<rfloor>; r = q - of_int f
      in if r < 1 / 2 then f else if 1 / 2 < r then f + 1
         else if even f then f else f + 1)"

definition pow10 :: "int \<Rightarrow> rat" where
  "pow10 k = (if 0 \<le> k then 10 ^ nat k else 1 / 10 ^ nat (- k))"

definition zero_pad :: "nat \<Rightarrow> string \<Rightarrow> string" where
  "zero_pad n s = replicate (n - length s) CHR ''0'' @ s"

definition show_fixed :: "nat \<Rightarrow> rat \<Rightarrow> string" where
  "show_fixed p x =
     (let n = nat (round_half_even (\<bar>x\<bar> * 10 ^ p))
      in (if x < 0 then ''-'' else [])
         @ show_nat (n div 10 ^ p)
         @ (if p = 0 then [] else ''.'' @ zero_pad p (show_nat (n mod 10 ^ p))))"

text \<open>Least \<open>k\<close> with \<open>m * 10 ^ k \<ge> n\<close>, negated: the decimal exponent of \<open>m / n < 1\<close>.\<close>

function scale_exp :: "nat \<Rightarrow> nat \<Rightarrow> int" where
  "scale_exp m n = (if 0 < m \<and> m < n then scale_exp (10 * m) n - 1 else 0)"
  by pat_completeness auto
termination
  by (relation "measure (\<lambda>(m, n). n - m)") auto

declare scale_exp.simps [simp del]

definition decimal_exponent :: "rat \<Rightarrow> int" where
  "decimal_exponent a =
     (if 1 \<le> a then int (length (show_nat (nat \<lfloor>a\<rfloor>))) - 1
      else (case quotient_of a of (m, n) \<Rightarrow> scale_exp (nat m) (nat n)))"

definition strip_zeros :: "string \<Rightarrow> string" where
  "strip_zeros s =
     (if CHR ''.'' \<in> set s then
        (let t = rev (dropWhile (\<lambda>c. c = CHR ''0'') (rev s))
         in if t \<noteq> [] \<and> last t = CHR ''.'' then butlast t else t)
      else s)"

definition show_exponent :: "int \<Rightarrow> string" where
  "show_exponent e =
     ''e'' @ (if e < 0 then ''-'' else ''+'') @ zero_pad 2 (show_nat (nat \<bar>e\<bar>))"

definition show_general :: "nat \<Rightarrow> rat \<Rightarrow> string" where
  "show_general prec x =
     (let P = (if prec = 0 then 1 else prec) in
      if x = 0 then ''0''
      else
        (let e = decimal_exponent \<bar>x\<bar>;
             n = nat (round_half_even (\<bar>x\<bar> * pow10 (int P - 1 - e)));
             X = (if 10 ^ P \<le> n then e + 1 else e);
             d = (if 10 ^ P \<le> n then n div 10 else n)
         in if - 4 \<le> X \<and> X < int P then strip_zeros (show_fixed (nat (int P - 1 - X)) x)
            else (if x < 0 then ''-'' else [])
                 @ strip_zeros (show_nat (d div 10 ^ (P - 1)) @ ''.''
                      @ zero_pad (P - 1) (show_nat (d mod 10 ^ (P - 1))))
                 @ show_exponent X))"

definition int_ops :: "int T_ops" where
  "int_ops = \<lparr> fixed_text = (\<lambda>p. show_int), plain_text = show_int, T_default = 0 \<rparr>"

definition double_ops :: "rat T_ops" where
  "double_ops = \<lparr> fixed_text = show_fixed, plain_text = show_general 6, T_default = 0 \<rparr>"

definition string_ops :: "string T_ops" where
  "string_ops = \<lparr> fixed_text = (\<lambda>p s. s), plain_text = (\<lambda>s. s), T_default = [] \<rparr>"

section \<open>Rendering\<close>

text \<open>
  A member function that appends to \<open>_table\<close> returns the plotter with what it has
  appended so far, and how it ended: text written before an exception stays in the stream.
  The operands of a chain of \<open><<\<close> are evaluated and written from left to right (the
  order that C++17 fixes), so a \<open>std::string\<close> temporary that throws does so after the
  operands on its left have been written.
\<close>

datatype status = Normal | Threw exn | Undefined

type_synonym 's action = "'s \<Rightarrow> status \<times> 's"

fun run :: "'s action list \<Rightarrow> 's action" where
  "run [] s = (Normal, s)"
| "run (a # as) s = (case a s of (Normal, s') \<Rightarrow> run as s' | r \<Rightarrow> r)"

definition out :: "string \<Rightarrow> 'a Plotter action" where
  "out s p = (Normal, p\<lparr>m_table := m_table p @ s\<rparr>)"

definition out_fill :: "size_t \<Rightarrow> char \<Rightarrow> 'a Plotter action" where
  "out_fill n c p =
     (case std_string n c of Inl e \<Rightarrow> (Threw e, p) | Inr s \<Rightarrow> out s p)"

text \<open>\<open>for (unsigned int i = 0; i < n; i++) body(i)\<close>, entered at \<open>i\<close>.\<close>

function for_loop :: "uint \<Rightarrow> uint \<Rightarrow> (uint \<Rightarrow> 's action) \<Rightarrow> 's action" where
  "for_loop i n body s =
     (if i < n then
        (case body i s of (Normal, s') \<Rightarrow> for_loop (i + 1) n body s' | r \<Rightarrow> r)
      else (Normal, s))"
  by pat_completeness auto
termination
proof (relation "measure (\<lambda>(i, n, body, s). unat n - unat i)")
  show "wf (measure (\<lambda>(i :: uint, n :: uint, body :: uint \<Rightarrow> 's action, s :: 's).
          unat n - unat i))"
    by simp
next
  fix i n :: uint and body :: "uint \<Rightarrow> 's action" and s :: 's
    and x :: "status \<times> 's" and x1 :: status and s' :: 's
  assume lt: "i < n"
  then have "unat i < unat n"
    by (simp add: word_less_nat_alt)
  moreover have "unat n < 2 ^ 32"
    using unsigned_less [of n] by simp
  ultimately have "unat (i + 1) = unat i + 1"
    by (simp add: unat_word_ariths)
  moreover note \<open>unat i < unat n\<close>
  ultimately show "((i + 1, n, body, s'), (i, n, body, s))
      \<in> measure (\<lambda>(i, n, body, s). unat n - unat i)"
    by simp
qed

declare for_loop.simps [simp del]

definition print_endline :: "'a Plotter action" where
  "print_endline p =
     run [out ''+'',
          out_fill (size_t_of_uint (m_table_width p - 2)) CHR ''-'',
          out ''+'',
          out newline] p"

definition print_table_header :: "'a Plotter action" where
  "print_table_header p =
     (let avail = size_t_of_uint (m_table_width p) - of_nat (length (m_name p)) - 2;
          left_padding = int_of_size_t (avail div 2);
          right_padding = int_of_size_t (avail - size_t_of_int left_padding)
      in run [out newline,
              out ''+'',
              out_fill (size_t_of_uint (m_table_width p - 2)) CHR ''-'',
              out ''+'', out newline,
              out ''|'',
              out_fill (size_t_of_int left_padding) CHR '' '',
              out (m_name p),
              out_fill (size_t_of_int right_padding) CHR '' '',
              out ''|'', out newline,
              out ''+'',
              out_fill (size_t_of_uint (m_table_width p - 2)) CHR ''-'',
              out ''+'', out newline] p)"

text \<open>
  The body of the loop of \<open>print_columns_header\<close>, for the column \<open>i\<close>;
  \<open>_column_names[i]\<close> is an unchecked \<open>std::vector\<close> access.
\<close>

definition column_header :: "uint \<Rightarrow> 'a Plotter action" where
  "column_header i p =
     (if unat i < length (m_column_names p) then
        (let header = m_column_names p ! unat i;
             avail = size_t_of_uint (m_column_width p) - of_nat (length header);
             left_padding = int_of_size_t (avail div 2);
             right_padding = int_of_size_t (avail - size_t_of_int left_padding)
         in run [out_fill (size_t_of_int left_padding) CHR '' '',
                 out header,
                 out_fill (size_t_of_int right_padding) CHR '' '',
                 out ''|''] p)
      else (Undefined, p))"

definition print_columns_header :: "'a Plotter action" where
  "print_columns_header p =
     run [out ''|'',
          for_loop 0 (m_cols p) column_header,
          out newline,
          print_endline] p"

definition col_width_is_sufficient :: "'a T_ops \<Rightarrow> 'a Plotter \<Rightarrow> 'a \<Rightarrow> uint \<Rightarrow> bool" where
  "col_width_is_sufficient ops p v column_width =
     (length (fixed_text ops (unat (m_precision p)) v) \<le> unat column_width)"

text \<open>
  The body of the loop of \<open>print_row\<close>, on the plotter and the local
  \<open>too_long_values_buffer\<close>. The index \<open>start_index + j * stride\<close> is computed in
  \<open>unsigned int\<close> (\<open>stride\<close> is converted); a read outside the array is undefined.
\<close>

definition print_cell ::
  "'a T_ops \<Rightarrow> uint \<Rightarrow> int \<Rightarrow> uint \<Rightarrow> ('a Plotter \<times> string) action" where
  "print_cell ops start_index stride j = (\<lambda>(p, too_long_values_buffer).
     (case m_data p of
        None \<Rightarrow> (Undefined, (p, too_long_values_buffer))
      | Some buf \<Rightarrow>
          (let k = unat (start_index + j * uint_of_int stride) in
           if k < length buf then
             (let v = buf ! k;
                  long = \<not> col_width_is_sufficient ops p v (m_column_width p);
                  too_long_values_buffer' =
                    (if long then
                       too_long_values_buffer @ newline @ newline @ ''cell: ''
                         @ show_nat (unat j) @ '' value: '' @ plain_text ops v
                     else too_long_values_buffer);
                  v' = (if long then T_default ops else v)
              in (Normal,
                  (p\<lparr>m_table := m_table p
                       @ setw (int_of_uint (m_column_width p))
                           (fixed_text ops (unat (m_precision p)) v') @ ''|''\<rparr>,
                   too_long_values_buffer')))
           else (Undefined, (p, too_long_values_buffer)))))"

definition print_row :: "'a T_ops \<Rightarrow> uint \<Rightarrow> uint \<Rightarrow> int \<Rightarrow> 'a Plotter action" where
  "print_row ops start_index cell_count stride p =
     (case out ''|'' p of
        (Normal, p1) \<Rightarrow>
          (case for_loop 0 cell_count (print_cell ops start_index stride) (p1, []) of
             (Normal, (p2, too_long_values_buffer)) \<Rightarrow>
               run [out too_long_values_buffer, out newline] p2
           | (r, (p2, too_long_values_buffer)) \<Rightarrow> (r, p2))
      | r \<Rightarrow> r)"

definition print_content :: "'a T_ops \<Rightarrow> 'a Plotter action" where
  "print_content ops p =
     (if m_data_arrangement p = RowMajor then
        run [for_loop 0 (m_rows p) (\<lambda>i. print_row ops (i * m_cols p) (m_cols p) 1),
             print_endline] p
      else
        run [for_loop 0 (m_rows p)
               (\<lambda>i. print_row ops i (m_cols p) (int_of_uint (m_rows p))),
             print_endline] p)"

text \<open>The three calls of the \<open>try\<close> block of \<open>print_table\<close> and \<open>get_table\<close>.\<close>

definition render :: "'a T_ops \<Rightarrow> 'a Plotter action" where
  "render ops = run [print_table_header, print_columns_header, print_content ops]"

text \<open>The two standard streams the class writes to.\<close>

record world =
  cout :: string
  cerr :: string

fun what :: "exn \<Rightarrow> string" where
  "what (Invalid_argument msg) = msg"
| "what (Length_error msg) = msg"
| "what Other_exception = []"

text \<open>
  \<open>get_table\<close> and \<open>print_table\<close>: the first handler takes every \<open>std::exception\<close>, the
  second anything else. Undefined behaviour inside the \<open>try\<close> block is no exception and
  no handler sees it.
\<close>

definition get_table ::
  "'a T_ops \<Rightarrow> 'a Plotter \<Rightarrow> world \<Rightarrow> failure + (string \<times> 'a Plotter \<times> world)" where
  "get_table ops p w =
     (case render ops p of
        (Undefined, p') \<Rightarrow> Inl Undefined_behaviour
      | (r, p') \<Rightarrow>
          (let w' = (case r of
                       Threw Other_exception \<Rightarrow>
                         w\<lparr>cerr := cerr w
                            @ ''Error: An unknown error occurred while printing the table: ''
                            @ m_name p' @ newline\<rparr>
                     | Threw e \<Rightarrow>
                         w\<lparr>cerr := cerr w @ ''Error printing table: '' @ m_name p' @ newline
                            @ what e @ newline\<rparr>
                     | _ \<Rightarrow> w);
               p'' = p'\<lparr>m_table := m_table p' @ newline\<rparr>
           in Inr (m_table p'', p'', w')))"

definition print_table ::
  "'a T_ops \<Rightarrow> 'a Plotter \<Rightarrow> world \<Rightarrow> failure + ('a Plotter \<times> world)" where
  "print_table ops p w =
     (case render ops p of
        (Undefined, p') \<Rightarrow> Inl Undefined_behaviour
      | (r, p') \<Rightarrow>
          (let w' = (case r of
                       Threw Other_exception \<Rightarrow>
                         w\<lparr>cout := cout w
                            @ ''Error: An unknown error occurred while printing the table.''\<rparr>
                     | Threw e \<Rightarrow>
                         w\<lparr>cout := cout w @ ''Error printing table: '' @ what e\<rparr>
                     | _ \<Rightarrow> w);
               p'' = p'\<lparr>m_table := m_table p' @ newline\<rparr>
           in Inr (p'', w'\<lparr>cout := cout w' @ m_table p''\<rparr>)))"

section \<open>The text of the parts of a table\<close>

text \<open>The line \<open>+---...---+\<close> that frames the banner and closes the header and the rows.\<close>

definition border_text :: "'a Plotter \<Rightarrow> string" where
  "border_text p = ''+'' @ replicate (unat (m_table_width p - 2)) CHR ''-'' @ ''+'' @ newline"

text \<open>
  One cell and its overflow note, for a value \<open>v\<close> at position \<open>j\<close> of its row: a value
  whose fixed-notation text is longer than the column is replaced by \<open>T()\<close> in the cell and
  reported after the row, as the annotation \<open>cell: j value: v\<close> behind two newlines.
\<close>

definition cell_text :: "'a T_ops \<Rightarrow> 'a Plotter \<Rightarrow> 'a \<Rightarrow> string" where
  "cell_text ops p v =
     setw (int_of_uint (m_column_width p))
       (fixed_text ops (unat (m_precision p))
          (if length (fixed_text ops (unat (m_precision p)) v) \<le> unat (m_column_width p)
           then v else T_default ops))
     @ ''|''"

definition cell_note :: "'a T_ops \<Rightarrow> 'a Plotter \<Rightarrow> nat \<Rightarrow> 'a \<Rightarrow> string" where
  "cell_note ops p j v =
     (if length (fixed_text ops (unat (m_precision p)) v) \<le> unat (m_column_width p) then []
      else newline @ newline @ ''cell: '' @ show_nat j @ '' value: '' @ plain_text ops v)"

text \<open>A content row showing the values \<open>vs\<close>: the cells, then the notes, then the newline.\<close>

definition row_text :: "'a T_ops \<Rightarrow> 'a Plotter \<Rightarrow> 'a list \<Rightarrow> string" where
  "row_text ops p vs =
     ''|'' @ concat (map (cell_text ops p) vs)
       @ concat (map (\<lambda>(j, v). cell_note ops p j v) (enumerate 0 vs)) @ newline"

text \<open>
  The place in the buffer of cell \<open>j\<close> of content row \<open>i\<close>, in \<open>unsigned int\<close> arithmetic:
  \<open>i * cols + j\<close> for \<open>RowMajor\<close>, \<open>i + j * rows\<close> for \<open>ColumnMajor\<close>.
\<close>

definition cell_index :: "'a Plotter \<Rightarrow> uint \<Rightarrow> uint \<Rightarrow> uint" where
  "cell_index p i j =
     (case m_data_arrangement p of
        RowMajor \<Rightarrow> i * m_cols p + j
      | ColumnMajor \<Rightarrow> i + j * m_rows p)"

text \<open>
  The overflow cell as the specification words it: the default value followed by spaces
  up to the column width. \<open>spec_row_text\<close> is \<open>row_text\<close> with such cells.
\<close>

definition spec_cell_text :: "'a T_ops \<Rightarrow> 'a Plotter \<Rightarrow> 'a \<Rightarrow> string" where
  "spec_cell_text ops p v =
     (if length (fixed_text ops (unat (m_precision p)) v) \<le> unat (m_column_width p)
      then setw (int_of_uint (m_column_width p)) (fixed_text ops (unat (m_precision p)) v)
      else (let d = fixed_text ops (unat (m_precision p)) (T_default ops)
            in d @ replicate (unat (m_column_width p) - length d) CHR '' ''))
     @ ''|''"

definition spec_row_text :: "'a T_ops \<Rightarrow> 'a Plotter \<Rightarrow> 'a list \<Rightarrow> string" where
  "spec_row_text ops p vs =
     ''|'' @ concat (map (spec_cell_text ops p) vs)
       @ concat (map (\<lambda>(j, v). cell_note ops p j v) (enumerate 0 vs)) @ newline"

text \<open>The \<open>double\<close> nearest to 12345.678, \<open>6787108256889176 / 2 ^ 39\<close> in lowest terms.\<close>

definition double_12345_678 :: rat where
  "double_12345_678 = 848388532111147 / 68719476736"

text \<open>
  An action appends to the table when, whatever text the stream already holds, it ends
  the same way and leaves that text followed by the same new text, the rest of the state
  (\<open>rest\<close>) as it was. \<open>put\<close> sets the text of the stream in a state.
\<close>

definition appends :: "(string \<Rightarrow> 's \<Rightarrow> 's) \<Rightarrow> ('s \<Rightarrow> 'r) \<Rightarrow> 's action \<Rightarrow> bool" where
  "appends put rest a \<longleftrightarrow>
     (\<forall>s. \<exists>r t s0. rest s0 = rest s \<and> (\<forall>x. a (put x s) = (r, put (x @ t) s0)))"

definition put_table :: "string \<Rightarrow> 'a Plotter \<Rightarrow> 'a Plotter" where
  "put_table x p = p\<lparr>m_table := x\<rparr>"

definition put_table2 :: "string \<Rightarrow> 'a Plotter \<times> string \<Rightarrow> 'a Plotter \<times> string" where
  "put_table2 x = (\<lambda>(p, nb). (p\<lparr>m_table := x\<rparr>, nb))"

definition rest2 :: "'a Plotter \<times> string \<Rightarrow> 'a Plotter" where
  "rest2 = (\<lambda>(p, nb). put_table [] p)"

text \<open>
  Two plotters as the constructor returns them: the one of the end-to-end example of the
  specification (buffer 1, 2, 3, 4, labels A and B, width 13), and one whose name is wider
  than its table, with the text that the first renders to.
\<close>

definition example_plotter :: "int Plotter" where
  "example_plotter =
     \<lparr> m_table = [], m_data = Some [1, 2, 3, 4], m_data_arrangement = RowMajor,
       m_column_names = [''A'', ''B''], m_name = ''T'', m_table_width = 13,
       m_column_width = 5, m_size = 4, m_cols = 2, m_rows = 2, m_precision = 8 \<rparr>"

definition example_table :: string where
  "example_table =
     newline @ ''+-----------+'' @ newline @ ''|     T     |'' @ newline
       @ ''+-----------+'' @ newline @ ''|  A  |  B  |'' @ newline
       @ ''+-----------+'' @ newline @ ''|    1|    2|'' @ newline
       @ ''|    3|    4|'' @ newline @ ''+-----------+'' @ newline"

definition narrow_plotter :: "int Plotter" where
  "narrow_plotter =
     \<lparr> m_table = [], m_data = Some [1, 2, 3, 4], m_data_arrangement = RowMajor,
       m_column_names = [''A'', ''B''], m_name = ''Hello'', m_table_width = 4,
       m_column_width = 0, m_size = 4, m_cols = 2, m_rows = 2, m_precision = 8 \<rparr>"

text \<open>The messages that the two handlers of \<open>get_table\<close> and of \<open>print_table\<close> write.\<close>

definition get_table_diagnostic :: "exn \<Rightarrow> string \<Rightarrow> string" where
  "get_table_diagnostic e name =
     (if e = Other_exception then
        ''Error: An unknown error occurred while printing the table: '' @ name @ newline
      else ''Error printing table: '' @ name @ newline @ what e @ newline)"

definition print_table_diagnostic :: "exn \<Rightarrow> string" where
  "print_table_diagnostic e =
     (if e = Other_exception then
        ''Error: An unknown error occurred while printing the table.''
      else ''Error printing table: '' @ what e)"

text \<open>
  A buffer of \<open>2 ^ 31\<close> elements shown in two columns, \<open>ColumnMajor\<close>, as the constructor
  returns it: \<open>calculate_rows\<close> receives the size as \<open>INT_MIN\<close>, and \<open>INT_MIN / 2\<close> stored
  in \<open>_rows\<close> reads 3221225472.
\<close>

definition big_buffer :: "int list" where
  "big_buffer = replicate 2147483648 0"

definition big_plotter :: "int Plotter" where
  "big_plotter =
     \<lparr> m_table = [], m_data = Some big_buffer, m_data_arrangement = ColumnMajor,
       m_column_names = [''A'', ''B''], m_name = ''T'', m_table_width = 13,
       m_column_width = 5, m_size = 2147483648, m_cols = 2, m_rows = 3221225472,
       m_precision = 8 \<rparr>"

section \<open>Construction\<close>



lemma sint_of_nat_length_ne:
  assumes "cn \<noteq> []" "length cn < 2 ^ 32 - 1"
  shows "sint (of_nat (length cn) :: uint) \<noteq> 0" "sint (of_nat (length cn) :: uint) \<noteq> - 1"
proof -
  have u: "unat (of_nat (length cn) :: uint) = length cn"
    using assms by (simp add: unat_of_nat)
  have "(of_nat (length cn) :: uint) \<noteq> 0"
    using u assms(1) by (metis length_0_conv unat_0)
  then show "sint (of_nat (length cn) :: uint) \<noteq> 0"
    by (simp add: signed_eq_0_iff)
  have "(of_nat (length cn) :: uint) \<noteq> - 1"
  proof
    assume "(of_nat (length cn) :: uint) = - 1"
    then have "unat (of_nat (length cn) :: uint) = unat (- 1 :: uint)"
      by simp
    with u assms(2) show False
      by (simp add: unsigned_minus_1_eq_mask mask_eq_exp_minus_1)
  qed
  then show "sint (of_nat (length cn) :: uint) \<noteq> - 1"
    by (metis word_eq_iff_signed sint_n1)
qed

lemmas ctor_defs =
  Plotter_ctor_def validate_inputs_throw_exception_def calculate_rows_def
  calculate_column_width_def int_div_def int_sub_def int_add_def wrap_int_def
  INT_MIN_def signed_divide_int_def Let_def

text \<open>
  The constructor ends with \<open>std::invalid_argument\<close> exactly when the data pointer is
  null, or the list of column names is empty, or \<open>table_width\<close> is 0, or \<open>size\<close> is 0. When
  none of the four holds it returns a plotter, for every list of fewer than \<open>2 ^ 32 - 1\<close>
  column names; at \<open>2 ^ 32\<close> names the count stored in \<open>_cols\<close> is 0 and the division of
  \<open>calculate_rows\<close> traps.
\<close>

lemma ctor_invalid_argument_iff:
  "((\<exists>msg. Plotter_ctor d n cn tw sz a = Inl (Thrown (Invalid_argument msg)))
      \<longleftrightarrow> (d = None \<or> cn = [] \<or> tw = 0 \<or> sz = 0))
   \<and> (d \<noteq> None \<and> cn \<noteq> [] \<and> tw \<noteq> 0 \<and> sz \<noteq> 0 \<and> length cn < 2 ^ 32 - 1
        \<longrightarrow> (\<exists>p. Plotter_ctor d n cn tw sz a = Inr p))"
  using sint_of_nat_length_ne [of cn]
  by (auto simp: Plotter_ctor_def validate_inputs_throw_exception_def calculate_rows_def
      calculate_column_width_def int_div_def Let_def split: option.splits)

lemma ctor_invalid_argument_iff_witness:
  "\<exists>p. Plotter_ctor (Some [1, 2, 3, 4 :: int]) ''T'' [''A'', ''B''] 13 4 RowMajor = Inr p"
  using ctor_invalid_argument_iff
    [of "Some [1, 2, 3, 4 :: int]" "''T''" "[''A'', ''B'']" 13 4 RowMajor]
  by simp

text \<open>
  C2. \<open>calculate_rows\<close> divides as \<open>int\<close>: a \<open>size\<close> of \<open>2 ^ 31\<close> or more reaches it as a
  negative number. With \<open>size = 4294967295\<close> and two columns the constructor stores
  \<open>_rows = 0\<close>, where \<open>size / cols\<close> is 2147483647.
\<close>

theorem rows_at_size_4294967295:
  "Plotter_ctor (Some buf) name [''A'', ''B''] 20 4294967295 RowMajor =
     Inr \<lparr> m_table = [], m_data = Some buf, m_data_arrangement = RowMajor,
           m_column_names = [''A'', ''B''], m_name = name, m_table_width = 20,
           m_column_width = 8, m_size = 4294967295, m_cols = 2, m_rows = 0,
           m_precision = 8 \<rparr>
   \<and> unat (4294967295 :: uint) div unat (2 :: uint) = 2147483647"
  by (simp add: ctor_defs)



section \<open>The banner\<close>

lemma run_Nil_eq: "run [] = (\<lambda>s. (Normal, s))"
  by (rule ext) simp

lemma run_out: "run (out s # as) p = run as (p\<lparr>m_table := m_table p @ s\<rparr>)"
  by (simp add: out_def)

lemma run_Normal: "a s = (Normal, s') \<Longrightarrow> run (a # as) s = run as s'"
  by simp

lemma run_stop: "a s = (r, s') \<Longrightarrow> r \<noteq> Normal \<Longrightarrow> run (a # as) s = (r, s')"
  by (cases r) simp_all

lemma std_string_small: "unat n < 2 ^ 32 \<Longrightarrow> std_string n c = Inr (replicate (unat n) c)"
  by (simp add: std_string_def string_max_size_def)

lemma out_fill_small: "unat n < 2 ^ 32 \<Longrightarrow> out_fill n c = out (replicate (unat n) c)"
  by (rule ext) (simp add: out_fill_def std_string_small)

lemma run_out_fill:
  "run (out_fill n c # as) p =
     (case std_string n c of
        Inl e \<Rightarrow> (Threw e, p)
      | Inr s \<Rightarrow> run as (p\<lparr>m_table := m_table p @ s\<rparr>))"
  by (simp add: out_fill_def out_def split: sum.splits)

declare run.simps(2) [simp del]

lemma size_t_of_nat: "a < 2 ^ 32 \<Longrightarrow> unat (of_nat a :: size_t) = a"
  by (simp add: unat_of_nat)

lemma int_size_t_roundtrip:
  fixes x :: size_t
  assumes "unat x < 2 ^ 31"
  shows "size_t_of_int (int_of_size_t x) = x"
proof -
  have "unat (ucast x :: uint) = unat x"
    using assms by (simp add: unsigned_ucast_eq take_bit_nat_eq_self)
  then have u: "uint (ucast x :: uint) = uint x"
    by (metis of_nat_unat)
  have hi: "uint x < 2 ^ 31"
    using assms by (metis of_nat_less_numeral_power_cancel_iff of_nat_unat)
  have "- (2 ^ 31) \<le> (0 :: int)"
    by simp
  also have "0 \<le> uint x"
    by simp
  finally have "signed_take_bit 31 (uint x) = uint x"
    using hi by (intro signed_take_bit_int_eq_self)
  then have "sint (ucast x :: uint) = uint x"
    by (simp add: sint_uint u)
  then show ?thesis
    unfolding size_t_of_int_def int_of_size_t_def by simp
qed

lemma unat_half_diff:
  fixes x :: size_t
  shows "unat (x - x div 2) = unat x - unat x div 2"
proof -
  have "x div 2 \<le> x"
    by (simp add: word_le_nat_alt unat_div)
  then show ?thesis
    by (simp add: unat_sub unat_div)
qed

lemma centre_padding:
  fixes avail :: size_t
  assumes "unat avail < 2 ^ 32 - 1"
  defines "l \<equiv> int_of_size_t (avail div 2)"
  shows "size_t_of_int l = avail div 2"
    and "size_t_of_int (int_of_size_t (avail - size_t_of_int l)) = avail - avail div 2"
proof -
  have "unat (avail div 2) < 2 ^ 31"
    using assms(1) by (simp add: unat_div)
  then show l: "size_t_of_int l = avail div 2"
    unfolding l_def by (rule int_size_t_roundtrip)
  have "unat (avail - avail div 2) < 2 ^ 31"
    using assms(1) by (simp add: unat_half_diff)
  then show "size_t_of_int (int_of_size_t (avail - size_t_of_int l)) = avail - avail div 2"
    unfolding l by (rule int_size_t_roundtrip)
qed

lemma unat_table_width_avail:
  fixes tw :: uint
  assumes "len + 2 \<le> unat tw"
  shows "unat (size_t_of_uint tw - of_nat len - 2) = unat tw - len - 2"
proof -
  have tw: "unat tw < 2 ^ 32"
    using unsigned_less [of tw] by simp
  have "size_t_of_uint tw - of_nat len - 2 = (of_nat (unat tw - len - 2) :: size_t)"
    using assms by (simp add: size_t_of_uint_def of_nat_diff)
  moreover have "unat (of_nat (unat tw - len - 2) :: size_t) = unat tw - len - 2"
    using tw by (simp add: unat_of_nat)
  ultimately show ?thesis by simp
qed



lemma unat_minus_2: "2 \<le> unat (w :: uint) \<Longrightarrow> unat (w - 2) = unat w - 2"
  by (simp add: unat_sub word_le_nat_alt)

lemma unat_size_t_of_uint: "unat (size_t_of_uint w) = unat w"
proof -
  have "unat w < 2 ^ 32"
    using unsigned_less [of w] by simp
  also have "(2 :: nat) ^ 32 < 2 ^ 64"
    by simp
  finally show ?thesis
    by (simp add: size_t_of_uint_def unsigned_ucast_eq take_bit_nat_eq_self)
qed

text \<open>
  C8. When the name fits, \<open>name.length() + 2 \<le> table_width\<close>, the banner is the border
  line (\<open>table_width - 2\<close> dashes between two \<open>+\<close>), then \<open>|\<close>, the name between \<open>(table_width - name.length() - 2) / 2\<close> spaces on
  the left (rounded down) and the rest of the spare width on the right, \<open>|\<close>, and the
  border line again.
\<close>

theorem title_banner_centred:
  assumes "length (m_name p) + 2 \<le> unat (m_table_width p)"
  shows "print_table_header p =
     (Normal, p\<lparr>m_table := m_table p @ newline @ border_text p
        @ ''|'' @ replicate ((unat (m_table_width p) - length (m_name p) - 2) div 2) CHR '' ''
        @ m_name p
        @ replicate (unat (m_table_width p) - length (m_name p) - 2
                     - (unat (m_table_width p) - length (m_name p) - 2) div 2) CHR '' ''
        @ ''|'' @ newline @ border_text p\<rparr>)
   \<and> border_text p = ''+'' @ replicate (unat (m_table_width p) - 2) CHR ''-'' @ ''+'' @ newline"
proof -
  let ?a = "size_t_of_uint (m_table_width p) - of_nat (length (m_name p)) - 2"
  have tw: "unat (m_table_width p) < 2 ^ 32"
    using unsigned_less [of "m_table_width p"] by simp
  have a: "unat ?a = unat (m_table_width p) - length (m_name p) - 2"
    using assms by (rule unat_table_width_avail)
  then have small: "unat ?a < 2 ^ 32 - 1"
    using tw assms by simp
  note pad = centre_padding [OF small]
  have l: "unat (?a div 2) = (unat (m_table_width p) - length (m_name p) - 2) div 2"
    by (simp add: unat_div a)
  have r: "unat (?a - ?a div 2) = unat (m_table_width p) - length (m_name p) - 2
      - (unat (m_table_width p) - length (m_name p) - 2) div 2"
    by (simp add: unat_half_diff a)
  have d: "unat (size_t_of_uint (m_table_width p - 2)) = unat (m_table_width p) - 2"
    using assms by (simp add: unat_size_t_of_uint unat_minus_2)
  have fills: "unat (size_t_of_uint (m_table_width p - 2)) < 2 ^ 32"
    "unat (?a div 2) < 2 ^ 32" "unat (?a - ?a div 2) < 2 ^ 32"
    using tw small by (simp_all add: d l r a)
  note fill_eqs = fills [THEN out_fill_small]
  have "unat (m_table_width p - 2) = unat (m_table_width p) - 2"
    using assms by (simp add: unat_minus_2)
  then show ?thesis
    unfolding print_table_header_def Let_def pad(1) pad(2) [unfolded pad(1)] fill_eqs d l r
    by (simp add: run_out border_text_def)
qed


lemma replicate_numeral: "replicate (numeral k) c = c # replicate (numeral k - 1) c"
  by (simp add: numeral_eq_Suc)

theorem title_banner_centred_witness:
  "length ''X'' + 2 \<le> unat (11 :: uint)
   \<and> print_table_header
        \<lparr> m_table = [], m_data = Some [1, 2, 3, 4 :: int], m_data_arrangement = RowMajor,
          m_column_names = [''A'', ''B''], m_name = ''X'', m_table_width = 11,
          m_column_width = 4, m_size = 4, m_cols = 2, m_rows = 2, m_precision = 8 \<rparr>
     = (Normal,
        \<lparr> m_table = newline @ ''+---------+'' @ newline @ ''|    X    |'' @ newline
            @ ''+---------+'' @ newline,
          m_data = Some [1, 2, 3, 4 :: int], m_data_arrangement = RowMajor,
          m_column_names = [''A'', ''B''], m_name = ''X'', m_table_width = 11,
          m_column_width = 4, m_size = 4, m_cols = 2, m_rows = 2, m_precision = 8 \<rparr>)"
  using title_banner_centred
    [of "\<lparr> m_table = [], m_data = Some [1, 2, 3, 4 :: int], m_data_arrangement = RowMajor,
          m_column_names = [''A'', ''B''], m_name = ''X'', m_table_width = 11,
          m_column_width = 4, m_size = 4, m_cols = 2, m_rows = 2, m_precision = 8 \<rparr>"]
  by (simp add: border_text_def replicate_numeral)


text \<open>
  The name \<open>X\<close> in a table of width 11 leaves 8 spare columns, 4 on each side: the line
  is \<open>|    X    |\<close>, 11 characters, and not one with 5 spaces on the right.
\<close>

theorem title_banner_example_refuted:
  "m_table (snd (print_table_header
        \<lparr> m_table = [], m_data = Some [1, 2, 3, 4 :: int], m_data_arrangement = RowMajor,
          m_column_names = [''A'', ''B''], m_name = ''X'', m_table_width = 11,
          m_column_width = 4, m_size = 4, m_cols = 2, m_rows = 2, m_precision = 8 \<rparr>))
     \<noteq> newline @ ''+---------+'' @ newline @ ''|    X     |'' @ newline
            @ ''+---------+'' @ newline"
  by (simp add: print_table_header_def run_out run_out_fill std_string_def string_max_size_def
      size_t_of_uint_def size_t_of_int_def int_of_size_t_def newline_def replicate_numeral)

section \<open>Loops and rows\<close>

lemma unat_succ: "i < (n :: uint) \<Longrightarrow> unat (i + 1) = Suc (unat i)"
proof -
  assume "i < n"
  then have "unat i < unat n"
    by (simp add: word_less_nat_alt)
  moreover have "unat n < 2 ^ 32"
    using unsigned_less [of n] by simp
  ultimately show ?thesis
    by (simp add: unat_word_ariths)
qed

lemma for_loop_run:
  "i \<le> n \<Longrightarrow>
     for_loop i n body s = run (map (\<lambda>k. body (of_nat k)) [unat i..<unat n]) s"
proof (induction i n body s rule: for_loop.induct)
  case (1 i n body s)
  show ?case
  proof (cases "i < n")
    case True
    then have lt: "unat i < unat n"
      by (simp add: word_less_nat_alt)
    have suc: "unat (i + 1) = Suc (unat i)"
      using True by (rule unat_succ)
    have le: "i + 1 \<le> n"
      using lt suc by (simp add: word_le_nat_alt)
    have upt: "[unat i..<unat n] = unat i # [unat (i + 1)..<unat n]"
      using lt suc by (simp add: upt_conv_Cons)
    show ?thesis
    proof (cases "body i s")
      case (Pair r s')
      show ?thesis
      proof (cases r)
        case Normal
        with Pair True "1.IH" [OF True Pair [symmetric] _ le] show ?thesis
          by (simp add: for_loop.simps [of i] upt run.simps(2))
      next
        case (Threw e)
        with Pair True show ?thesis
          by (simp add: for_loop.simps [of i] upt run.simps(2))
      next
        case Undefined
        with Pair True show ?thesis
          by (simp add: for_loop.simps [of i] upt run.simps(2))
      qed
    qed
  next
    case False
    with "1.prems" have "i = n"
      by simp
    then show ?thesis
      by (simp add: for_loop.simps [of n])
  qed
qed


lemma for_loop_0_run:
  "for_loop 0 n body s = run (map (\<lambda>k. body (of_nat k)) [0..<unat n]) s"
  using for_loop_run [of 0 n body s] by simp

lemma cell_text_table [simp]: "cell_text ops (p\<lparr>m_table := x\<rparr>) = cell_text ops p"
  by (rule ext) (simp add: cell_text_def)

lemma cell_note_table [simp]: "cell_note ops (p\<lparr>m_table := x\<rparr>) = cell_note ops p"
  by (rule ext)+ (simp add: cell_note_def)

text \<open>One pass of the loop of \<open>print_row\<close> over a cell inside the buffer.\<close>

lemma print_cell_in_bounds:
  assumes "m_data p = Some buf" and "unat (start + j * uint_of_int stride) < length buf"
  shows "print_cell ops start stride j (p, nb) =
     (Normal,
      (p\<lparr>m_table := m_table p @ cell_text ops p (buf ! unat (start + j * uint_of_int stride))\<rparr>,
       nb @ cell_note ops p (unat j) (buf ! unat (start + j * uint_of_int stride))))"
  using assms
  by (simp add: print_cell_def Let_def cell_text_def cell_note_def col_width_is_sufficient_def)

lemma print_cell_out_of_bounds:
  assumes "m_data p = Some buf" and "\<not> unat (start + j * uint_of_int stride) < length buf"
  shows "print_cell ops start stride j (p, nb) = (Undefined, (p, nb))"
  using assms by (simp add: print_cell_def Let_def)

lemma print_cells_in_bounds:
  assumes "m_data p = Some buf"
    and "\<forall>k \<in> set ks. unat (start + of_nat k * uint_of_int stride) < length buf"
  shows "run (map (\<lambda>k. print_cell ops start stride (of_nat k)) ks) (p, nb) =
     (Normal,
      (p\<lparr>m_table := m_table p
          @ concat (map (\<lambda>k. cell_text ops p
              (buf ! unat (start + of_nat k * uint_of_int stride))) ks)\<rparr>,
       nb @ concat (map (\<lambda>k. cell_note ops p (unat (of_nat k :: uint))
              (buf ! unat (start + of_nat k * uint_of_int stride))) ks)))"
  using assms
proof (induction ks arbitrary: p nb)
  case Nil
  then show ?case by simp
next
  case (Cons k ks)
  let ?v = "buf ! unat (start + of_nat k * uint_of_int stride)"
  let ?p' = "p\<lparr>m_table := m_table p @ cell_text ops p ?v\<rparr>"
  have step: "print_cell ops start stride (of_nat k) (p, nb) =
      (Normal, (?p', nb @ cell_note ops p (unat (of_nat k :: uint)) ?v))"
    using Cons.prems by (intro print_cell_in_bounds) simp_all
  have "m_data ?p' = Some buf"
    using Cons.prems by simp
  from Cons.IH [OF this] Cons.prems(2) show ?case
    by (simp add: run.simps(2) step)
qed


lemma unat_of_nat_below: "k < unat (n :: uint) \<Longrightarrow> unat (of_nat k :: uint) = k"
proof -
  assume "k < unat n"
  moreover have "unat n < 2 ^ 32"
    using unsigned_less [of n] by simp
  ultimately show ?thesis
    by (simp add: unat_of_nat)
qed

lemma row_text_upt:
  "row_text ops p (map f [0..<n]) =
     ''|'' @ concat (map (\<lambda>k. cell_text ops p (f k)) [0..<n])
       @ concat (map (\<lambda>k. cell_note ops p k (f k)) [0..<n]) @ newline"
  by (simp add: row_text_def enumerate_map_upt comp_def)

lemma print_row_in_bounds:
  assumes "m_data p = Some buf"
    and "\<forall>j < unat cell_count. unat (start + of_nat j * uint_of_int stride) < length buf"
  shows "print_row ops start cell_count stride p =
     (Normal, p\<lparr>m_table := m_table p
        @ row_text ops p
            (map (\<lambda>j. buf ! unat (start + of_nat j * uint_of_int stride))
               [0..<unat cell_count])\<rparr>)"
proof -
  let ?p1 = "p\<lparr>m_table := m_table p @ ''|''\<rparr>"
  let ?v = "\<lambda>j. buf ! unat (start + of_nat j * uint_of_int stride)"
  have d: "m_data ?p1 = Some buf"
    using assms(1) by simp
  have b: "\<forall>k \<in> set [0..<unat cell_count].
      unat (start + of_nat k * uint_of_int stride) < length buf"
    using assms(2) by simp
  have nb: "map (\<lambda>k. cell_note ops p (unat (of_nat k :: uint)) (?v k)) [0..<unat cell_count]
      = map (\<lambda>k. cell_note ops p k (?v k)) [0..<unat cell_count]"
    by (rule map_cong) (simp_all add: unat_of_nat_below)
  show ?thesis
    unfolding print_row_def for_loop_0_run
    by (simp add: out_def print_cells_in_bounds [OF d b] run_out row_text_upt nb)
qed

section \<open>The content rows\<close>

lemma print_endline_text:
  "print_endline p = (Normal, p\<lparr>m_table := m_table p @ border_text p\<rparr>)"
proof -
  have "unat (size_t_of_uint (m_table_width p - 2)) < 2 ^ 32"
    using unsigned_less [of "m_table_width p - 2"] by (simp add: unat_size_t_of_uint)
  note fill = out_fill_small [OF this]
  show ?thesis
    by (simp add: print_endline_def run_out fill border_text_def unat_size_t_of_uint)
qed

lemma border_text_table [simp]: "border_text (p\<lparr>m_table := x\<rparr>) = border_text p"
  by (simp add: border_text_def)

lemma row_text_table [simp]: "row_text ops (p\<lparr>m_table := x\<rparr>) = row_text ops p"
  by (rule ext) (simp add: row_text_def)

text \<open>A sequence of steps that each append a text appends the texts in order.\<close>

lemma run_appends:
  assumes "\<forall>k \<in> set ks. \<forall>x. f k (p\<lparr>m_table := x\<rparr>) = (Normal, p\<lparr>m_table := x @ t k\<rparr>)"
  shows "run (map f ks) (p\<lparr>m_table := x\<rparr>) = (Normal, p\<lparr>m_table := x @ concat (map t ks)\<rparr>)"
  using assms
proof (induction ks arbitrary: x)
  case Nil
  then show ?case by simp
next
  case (Cons k ks)
  then have "f k (p\<lparr>m_table := x\<rparr>) = (Normal, p\<lparr>m_table := x @ t k\<rparr>)"
    by simp
  moreover have "run (map f ks) (p\<lparr>m_table := x @ t k\<rparr>) =
      (Normal, p\<lparr>m_table := (x @ t k) @ concat (map t ks)\<rparr>)"
    using Cons.prems by (intro Cons.IH) simp
  ultimately show ?case
    by (simp add: run.simps(2))
qed

lemma uint_of_int_1 [simp]: "uint_of_int 1 = 1"
  by (simp add: uint_of_int_def)

lemma uint_of_int_of_uint [simp]: "uint_of_int (int_of_uint w) = w"
  by (simp add: uint_of_int_def int_of_uint_def)

lemma print_content_in_bounds:
  assumes "m_data p = Some buf"
    and "\<forall>i < unat (m_rows p). \<forall>j < unat (m_cols p).
           unat (cell_index p (of_nat i) (of_nat j)) < length buf"
  shows "print_content ops (p\<lparr>m_table := x\<rparr>) =
     (Normal, p\<lparr>m_table := x
        @ concat (map (\<lambda>i. row_text ops p
             (map (\<lambda>j. buf ! unat (cell_index p (of_nat i) (of_nat j)))
                [0..<unat (m_cols p)])) [0..<unat (m_rows p)])
        @ border_text p\<rparr>)"
proof (cases "m_data_arrangement p")
  case RowMajor
  have rows: "\<forall>i \<in> set [0..<unat (m_rows p)]. \<forall>x.
      print_row ops (of_nat i * m_cols p) (m_cols p) 1 (p\<lparr>m_table := x\<rparr>) =
      (Normal, p\<lparr>m_table := x @ row_text ops p
         (map (\<lambda>j. buf ! unat (cell_index p (of_nat i) (of_nat j))) [0..<unat (m_cols p)])\<rparr>)"
  proof (intro ballI allI)
    fix i x
    assume "i \<in> set [0..<unat (m_rows p)]"
    then have "\<forall>j < unat (m_cols p).
        unat (of_nat i * m_cols p + of_nat j * uint_of_int 1) < length buf"
      using assms(2) RowMajor by (simp add: cell_index_def)
    from print_row_in_bounds [of "p\<lparr>m_table := x\<rparr>" buf "m_cols p" "of_nat i * m_cols p" 1 ops, OF _ this]
    show "print_row ops (of_nat i * m_cols p) (m_cols p) 1 (p\<lparr>m_table := x\<rparr>) =
      (Normal, p\<lparr>m_table := x @ row_text ops p
         (map (\<lambda>j. buf ! unat (cell_index p (of_nat i) (of_nat j))) [0..<unat (m_cols p)])\<rparr>)"
      using assms(1) RowMajor by (simp add: cell_index_def)
  qed
  show ?thesis
    using RowMajor
    by (simp add: print_content_def for_loop_0_run run.simps(2) run_appends [OF rows]
        print_endline_text)
next
  case ColumnMajor
  have rows: "\<forall>i \<in> set [0..<unat (m_rows p)]. \<forall>x.
      print_row ops (of_nat i) (m_cols p) (int_of_uint (m_rows p)) (p\<lparr>m_table := x\<rparr>) =
      (Normal, p\<lparr>m_table := x @ row_text ops p
         (map (\<lambda>j. buf ! unat (cell_index p (of_nat i) (of_nat j))) [0..<unat (m_cols p)])\<rparr>)"
  proof (intro ballI allI)
    fix i x
    assume "i \<in> set [0..<unat (m_rows p)]"
    then have "\<forall>j < unat (m_cols p).
        unat (of_nat i + of_nat j * uint_of_int (int_of_uint (m_rows p))) < length buf"
      using assms(2) ColumnMajor by (simp add: cell_index_def)
    from print_row_in_bounds [of "p\<lparr>m_table := x\<rparr>" buf "m_cols p" "of_nat i"
        "int_of_uint (m_rows p)" ops, OF _ this]
    show "print_row ops (of_nat i) (m_cols p) (int_of_uint (m_rows p)) (p\<lparr>m_table := x\<rparr>) =
      (Normal, p\<lparr>m_table := x @ row_text ops p
         (map (\<lambda>j. buf ! unat (cell_index p (of_nat i) (of_nat j))) [0..<unat (m_cols p)])\<rparr>)"
      using assms(1) ColumnMajor by (simp add: cell_index_def)
  qed
  show ?thesis
    using ColumnMajor
    by (simp add: print_content_def for_loop_0_run run.simps(2) run_appends [OF rows]
        print_endline_text)
qed

lemma cell_index_nat:
  assumes "unat (m_rows p) * unat (m_cols p) \<le> 2 ^ 32"
    and "i < unat (m_rows p)" and "j < unat (m_cols p)"
  shows "unat (cell_index p (of_nat i) (of_nat j)) =
     (case m_data_arrangement p of
        RowMajor \<Rightarrow> i * unat (m_cols p) + j
      | ColumnMajor \<Rightarrow> i + j * unat (m_rows p))"
proof -
  let ?r = "unat (m_rows p)" and ?c = "unat (m_cols p)"
  have "Suc i * ?c \<le> ?r * ?c" "Suc j * ?r \<le> ?c * ?r"
    using assms(2,3) by (simp_all only: mult_le_mono1 Suc_leI)
  then have b: "i * ?c + j < 2 ^ 32" "i + j * ?r < 2 ^ 32"
    using assms by (simp_all add: mult.commute)
  have "unat (of_nat (i * ?c + j) :: uint) = i * ?c + j"
    "unat (of_nat (i + j * ?r) :: uint) = i + j * ?r"
    using b by (simp_all add: unat_of_nat del: of_nat_add of_nat_mult)
  moreover have "(of_nat (i * ?c + j) :: uint) = of_nat i * m_cols p + of_nat j"
    "(of_nat (i + j * ?r) :: uint) = of_nat i + of_nat j * m_rows p"
    by simp_all
  ultimately have "unat (of_nat i * m_cols p + of_nat j) = i * ?c + j"
    "unat (of_nat i + of_nat j * m_rows p) = i + j * ?r"
    by (simp_all only:)
  then show ?thesis
    by (simp add: cell_index_def split: DataArrangement.split)
qed

lemma ctor_data:
  "Plotter_ctor d name cn tw sz arr = Inr p \<Longrightarrow>
     m_data p = d \<and> m_table p = [] \<and> m_data_arrangement p = arr \<and> m_name p = name
     \<and> m_column_names p = cn \<and> m_table_width p = tw \<and> m_size p = sz
     \<and> m_cols p = of_nat (length cn) \<and> m_precision p = 8"
  by (auto simp: Plotter_ctor_def Let_def split: option.splits)

text \<open>
  C1. For a constructed plotter whose reads all fall inside the buffer, \<open>print_content\<close>
  appends one row per \<open>i < rows\<close> and then the border line, and cell \<open>j < cols\<close> of row
  \<open>i\<close> shows the buffer element at \<open>i * cols + j\<close> (\<open>RowMajor\<close>) or \<open>i + j * rows\<close>
  (\<open>ColumnMajor\<close>). The index is computed in \<open>unsigned int\<close>; it is the same number
  in the naturals whenever \<open>rows * cols\<close> does not exceed \<open>2 ^ 32\<close>.
\<close>

theorem content_cells_indexed:
  assumes "Plotter_ctor (Some buf) name cn tw sz arr = Inr p"
    and "\<forall>i < unat (m_rows p). \<forall>j < unat (m_cols p).
           unat (cell_index p (of_nat i) (of_nat j)) < length buf"
  shows "print_content ops (p\<lparr>m_table := x\<rparr>) =
     (Normal, p\<lparr>m_table := x
        @ concat (map (\<lambda>i. row_text ops p
             (map (\<lambda>j. buf ! unat (cell_index p (of_nat i) (of_nat j)))
                [0..<unat (m_cols p)])) [0..<unat (m_rows p)])
        @ border_text p\<rparr>)
   \<and> (unat (m_rows p) * unat (m_cols p) \<le> 2 ^ 32 \<longrightarrow>
        (\<forall>i < unat (m_rows p). \<forall>j < unat (m_cols p).
           unat (cell_index p (of_nat i) (of_nat j)) =
             (case arr of
                RowMajor \<Rightarrow> i * unat (m_cols p) + j
              | ColumnMajor \<Rightarrow> i + j * unat (m_rows p))))"
proof -
  from assms(1) have d: "m_data p = Some buf" and a: "m_data_arrangement p = arr"
    by (simp_all add: ctor_data)
  show ?thesis
    using print_content_in_bounds [OF d assms(2)] cell_index_nat [of p] a
    by simp
qed


lemma show_nat_digit: "n < 10 \<Longrightarrow> show_nat n = [digit_char n]"
  by (simp add: show_nat.simps)

lemma digit_char_simps:
  "digit_char 0 = CHR ''0''" "digit_char 1 = CHR ''1''" "digit_char 2 = CHR ''2''"
  "digit_char 3 = CHR ''3''" "digit_char 4 = CHR ''4''" "digit_char 5 = CHR ''5''"
  "digit_char 6 = CHR ''6''" "digit_char 7 = CHR ''7''" "digit_char 8 = CHR ''8''"
  "digit_char 9 = CHR ''9''" "digit_char (Suc 0) = CHR ''1''"
  by code_simp+

theorem content_cells_indexed_witness:
  "print_content int_ops
     \<lparr> m_table = [], m_data = Some [1, 2, 3, 4, 5, 6 :: int],
       m_data_arrangement = ColumnMajor, m_column_names = [''A'', ''B''], m_name = ''T'',
       m_table_width = 13, m_column_width = 5, m_size = 6, m_cols = 2, m_rows = 3,
       m_precision = 8 \<rparr>
   = (Normal,
      \<lparr> m_table = ''|    1|    4|'' @ newline @ ''|    2|    5|'' @ newline
          @ ''|    3|    6|'' @ newline @ ''+-----------+'' @ newline,
        m_data = Some [1, 2, 3, 4, 5, 6 :: int],
        m_data_arrangement = ColumnMajor, m_column_names = [''A'', ''B''], m_name = ''T'',
        m_table_width = 13, m_column_width = 5, m_size = 6, m_cols = 2, m_rows = 3,
        m_precision = 8 \<rparr>)"
proof -
  let ?p = "\<lparr> m_table = [], m_data = Some [1, 2, 3, 4, 5, 6 :: int],
       m_data_arrangement = ColumnMajor, m_column_names = [''A'', ''B''], m_name = ''T'',
       m_table_width = 13, m_column_width = 5, m_size = 6, m_cols = 2, m_rows = 3,
       m_precision = 8 \<rparr>"
  have e: "Plotter_ctor (Some [1, 2, 3, 4, 5, 6 :: int]) ''T'' [''A'', ''B''] 13 6 ColumnMajor
      = Inr ?p"
    by (simp add: ctor_defs)
  have b: "\<forall>i < unat (m_rows ?p). \<forall>j < unat (m_cols ?p).
      unat (cell_index ?p (of_nat i) (of_nat j)) < length [1, 2, 3, 4, 5, 6 :: int]"
  proof (intro allI impI)
    fix i j
    assume "i < unat (m_rows ?p)" "j < unat (m_cols ?p)"
    then have "i = 0 \<or> i = 1 \<or> i = 2" "j = 0 \<or> j = 1"
      by auto
    then show "unat (cell_index ?p (of_nat i) (of_nat j)) < length [1, 2, 3, 4, 5, 6 :: int]"
      by (auto simp: cell_index_def)
  qed
  have u: "[0..<2] = [0, 1 :: nat]" "[0..<3] = [0, 1, 2 :: nat]"
    by (simp_all add: upt_rec)
  from content_cells_indexed [OF e b, of int_ops "[]"] show ?thesis
    by (simp add: u row_text_def cell_text_def cell_note_def border_text_def int_ops_def
        cell_index_def setw_def int_of_uint_def show_int_def show_nat_digit digit_char_simps
        replicate_numeral)
qed

section \<open>Cells that overflow\<close>

lemma show_nat_numeral:
  "show_nat (numeral k) =
     (if (numeral k :: nat) < 10 then [digit_char (numeral k)]
      else show_nat (numeral k div 10) @ [digit_char (numeral k mod 10)])"
  by (rule show_nat.simps)

lemma show_nat_0: "show_nat 0 = ''0''"
  by (simp add: show_nat.simps digit_char_simps)

lemma setw_left_pad:
  assumes "unat (w :: uint) < 2 ^ 31"
  shows "setw (int_of_uint w) s = replicate (unat w - length s) CHR '' '' @ s"
proof -
  have "uint w < 2 ^ 31"
    using assms by (metis of_nat_less_numeral_power_cancel_iff of_nat_unat)
  have "- (2 ^ 31) \<le> (0 :: int)"
    by simp
  also have "0 \<le> uint w"
    by simp
  finally have "signed_take_bit 31 (uint w) = uint w"
    using \<open>uint w < 2 ^ 31\<close> by (intro signed_take_bit_int_eq_self)
  then have "sint w = int (unat w)"
    by (simp add: sint_uint)
  then have "nat (int_of_uint w - int (length s)) = unat w - length s"
    unfolding int_of_uint_def by linarith
  then show ?thesis
    by (simp add: setw_def)
qed

text \<open>
  C4. \<open>print_row\<close>, on a row inside the buffer, writes \<open>|\<close>, the cells, the notes and a
  newline. A value whose text in fixed notation at the stream's precision is longer than
  \<open>column_width\<close> is shown as the text of \<open>T()\<close> under \<open>std::setw(column_width)\<close>, and
  its note \<open>cell: j value: v\<close>, the value as a fresh stream prints it, follows the last
  \<open>|\<close> of the row behind two newlines; any other value is shown under the same width and
  has no note. The width puts the fill in front of the text: the cell is right-aligned.
\<close>

theorem overflow_cells:
  assumes "m_data p = Some buf"
    and "\<forall>j < unat cell_count. unat (start + of_nat j * uint_of_int stride) < length buf"
  shows "print_row ops start cell_count stride p =
      (Normal, p\<lparr>m_table := m_table p
         @ row_text ops p
             (map (\<lambda>j. buf ! unat (start + of_nat j * uint_of_int stride))
                [0..<unat cell_count])\<rparr>)
   \<and> (\<forall>v j. unat (m_column_width p) < length (fixed_text ops (unat (m_precision p)) v) \<longrightarrow>
         cell_text ops p v =
           setw (int_of_uint (m_column_width p))
             (fixed_text ops (unat (m_precision p)) (T_default ops)) @ ''|''
         \<and> cell_note ops p j v =
           newline @ newline @ ''cell: '' @ show_nat j @ '' value: '' @ plain_text ops v)
   \<and> (\<forall>v j. length (fixed_text ops (unat (m_precision p)) v) \<le> unat (m_column_width p) \<longrightarrow>
         cell_text ops p v =
           setw (int_of_uint (m_column_width p)) (fixed_text ops (unat (m_precision p)) v) @ ''|''
         \<and> cell_note ops p j v = [])
   \<and> (\<forall>s. unat (m_column_width p) < 2 ^ 31 \<longrightarrow>
         setw (int_of_uint (m_column_width p)) s =
           replicate (unat (m_column_width p) - length s) CHR '' '' @ s)"
  using print_row_in_bounds [OF assms, of ops] setw_left_pad [of "m_column_width p"]
  by (simp add: cell_text_def cell_note_def)

theorem overflow_cells_witness:
  "print_row int_ops 0 2 1
     \<lparr> m_table = [], m_data = Some [1234567, 2, 3, 4 :: int],
       m_data_arrangement = RowMajor, m_column_names = [''A'', ''B''], m_name = ''T'',
       m_table_width = 13, m_column_width = 5, m_size = 4, m_cols = 2, m_rows = 2,
       m_precision = 8 \<rparr>
   = (Normal,
      \<lparr> m_table = ''|    0|    2|'' @ newline @ newline @ ''cell: 0 value: 1234567''
          @ newline,
        m_data = Some [1234567, 2, 3, 4 :: int],
        m_data_arrangement = RowMajor, m_column_names = [''A'', ''B''], m_name = ''T'',
        m_table_width = 13, m_column_width = 5, m_size = 4, m_cols = 2, m_rows = 2,
        m_precision = 8 \<rparr>)"
proof -
  let ?p = "\<lparr> m_table = [], m_data = Some [1234567, 2, 3, 4 :: int],
       m_data_arrangement = RowMajor, m_column_names = [''A'', ''B''], m_name = ''T'',
       m_table_width = 13, m_column_width = 5, m_size = 4, m_cols = 2, m_rows = 2,
       m_precision = 8 \<rparr>"
  have d: "m_data ?p = Some [1234567, 2, 3, 4 :: int]"
    by simp
  have b: "\<forall>j < unat (2 :: uint).
      unat ((0 :: uint) + of_nat j * uint_of_int 1) < length [1234567, 2, 3, 4 :: int]"
  proof (intro allI impI)
    fix j
    assume "j < unat (2 :: uint)"
    then have "j = 0 \<or> j = 1"
      by auto
    then show "unat ((0 :: uint) + of_nat j * uint_of_int 1) < length [1234567, 2, 3, 4 :: int]"
      by auto
  qed
  have u: "[0..<2] = [0, 1 :: nat]"
    by (simp add: upt_rec)
  from overflow_cells [OF d b, of int_ops] show ?thesis
    by (simp add: u row_text_def cell_text_def cell_note_def int_ops_def setw_def
        int_of_uint_def show_int_def show_nat_numeral show_nat_0 show_nat_digit
        digit_char_simps replicate_numeral)
qed

text \<open>
  With \<open>column_width = 5\<close> the value 1234567 is replaced by \<open>0\<close>, written as four spaces
  and \<open>0\<close>: not as \<open>0\<close> and four spaces, the default value padded on its right.
\<close>

theorem overflow_cell_not_right_padded:
  "snd (print_row int_ops 0 2 1
     \<lparr> m_table = [], m_data = Some [1234567, 2, 3, 4 :: int],
       m_data_arrangement = RowMajor, m_column_names = [''A'', ''B''], m_name = ''T'',
       m_table_width = 13, m_column_width = 5, m_size = 4, m_cols = 2, m_rows = 2,
       m_precision = 8 \<rparr>)
   \<noteq> \<lparr> m_table = spec_row_text int_ops
          \<lparr> m_table = [], m_data = Some [1234567, 2, 3, 4 :: int],
            m_data_arrangement = RowMajor, m_column_names = [''A'', ''B''], m_name = ''T'',
            m_table_width = 13, m_column_width = 5, m_size = 4, m_cols = 2, m_rows = 2,
            m_precision = 8 \<rparr> [1234567, 2],
        m_data = Some [1234567, 2, 3, 4 :: int],
        m_data_arrangement = RowMajor, m_column_names = [''A'', ''B''], m_name = ''T'',
        m_table_width = 13, m_column_width = 5, m_size = 4, m_cols = 2, m_rows = 2,
        m_precision = 8 \<rparr>"
proof -
  let ?p = "\<lparr> m_table = [], m_data = Some [1234567, 2, 3, 4 :: int],
       m_data_arrangement = RowMajor, m_column_names = [''A'', ''B''], m_name = ''T'',
       m_table_width = 13, m_column_width = 5, m_size = 4, m_cols = 2, m_rows = 2,
       m_precision = 8 \<rparr>"
  have d: "m_data ?p = Some [1234567, 2, 3, 4 :: int]"
    by simp
  have b: "\<forall>j < unat (2 :: uint).
      unat ((0 :: uint) + of_nat j * uint_of_int 1) < length [1234567, 2, 3, 4 :: int]"
  proof (intro allI impI)
    fix j
    assume "j < unat (2 :: uint)"
    then have "j = 0 \<or> j = 1"
      by auto
    then show "unat ((0 :: uint) + of_nat j * uint_of_int 1) < length [1234567, 2, 3, 4 :: int]"
      by auto
  qed
  have u: "[0..<2] = [0, 1 :: nat]"
    by (simp add: upt_rec)
  show ?thesis
    by (simp add: print_row_in_bounds [OF d b] u row_text_def spec_row_text_def cell_text_def
        spec_cell_text_def cell_note_def int_ops_def setw_def
        int_of_uint_def show_int_def show_nat_numeral show_nat_0 show_nat_digit
        digit_char_simps replicate_numeral)
qed

section \<open>The overflow of 12345.678\<close>

lemma floor_rat_numeral: "\<lfloor>numeral a / numeral b :: rat\<rfloor> = numeral a div numeral b"
  by (metis floor_divide_of_int_eq of_int_numeral)

lemmas show_defs = floor_rat_numeral
  show_fixed_def show_general_def round_half_even_def zero_pad_def pow10_def
  decimal_exponent_def strip_zeros_def show_exponent_def Let_def
  show_nat_numeral show_nat_0 show_nat_digit digit_char_simps replicate_numeral

lemma double_12345_678_nearest:
  "double_12345_678 = 6787108256889176 / 2 ^ 39"
  "2 ^ 52 \<le> (6787108256889176 :: int)" "(6787108256889176 :: int) < 2 ^ 53"
  "\<bar>double_12345_678 - 12345678 / 1000\<bar> \<le> 1 / 2 ^ 40"
  by (simp_all add: double_12345_678_def)

lemma show_12345_678:
  "show_fixed 8 double_12345_678 = ''12345.67800000''"
  "show_general 6 double_12345_678 = ''12345.7''"
  "show_fixed 8 0 = ''0.00000000''"
  by (simp_all add: show_defs double_12345_678_def)

text \<open>
  C5. In a \<open>double\<close> plotter with \<open>column_width = 5\<close> and the precision 8 of the
  constructor, a cell holding 12345.678 (fixed text \<open>12345.67800000\<close>, 14 characters) is
  written as \<open>0.00000000\<close>, the default value in fixed notation, and its note is
  \<open>cell: j value: 12345.7\<close>: the note goes through a stream of its own, which prints
  6 significant digits.
\<close>

theorem overflow_annotation_12345_678:
  assumes "m_data p = Some buf" and "m_column_width p = 5" and "m_precision p = 8"
    and "unat (start + j * uint_of_int stride) < length buf"
    and "buf ! unat (start + j * uint_of_int stride) = double_12345_678"
  shows "print_cell double_ops start stride j (p, nb) =
     (Normal,
      (p\<lparr>m_table := m_table p @ ''0.00000000|''\<rparr>,
       nb @ newline @ newline @ ''cell: '' @ show_nat (unat j) @ '' value: 12345.7''))"
  using assms(2,3,5)
  by (simp add: print_cell_in_bounds [OF assms(1,4)] cell_text_def cell_note_def double_ops_def
      show_12345_678 setw_def int_of_uint_def)

theorem overflow_annotation_12345_678_witness:
  "print_cell double_ops 0 1 0
     (\<lparr> m_table = ''|'', m_data = Some [double_12345_678],
        m_data_arrangement = RowMajor, m_column_names = [''A''], m_name = ''T'',
        m_table_width = 7, m_column_width = 5, m_size = 1, m_cols = 1, m_rows = 1,
        m_precision = 8 \<rparr>, [])
   = (Normal,
      (\<lparr> m_table = ''|0.00000000|'', m_data = Some [double_12345_678],
         m_data_arrangement = RowMajor, m_column_names = [''A''], m_name = ''T'',
         m_table_width = 7, m_column_width = 5, m_size = 1, m_cols = 1, m_rows = 1,
         m_precision = 8 \<rparr>,
       newline @ newline @ ''cell: 0 value: 12345.7''))"
  using overflow_annotation_12345_678
    [of "\<lparr> m_table = ''|'', m_data = Some [double_12345_678],
        m_data_arrangement = RowMajor, m_column_names = [''A''], m_name = ''T'',
        m_table_width = 7, m_column_width = 5, m_size = 1, m_cols = 1, m_rows = 1,
        m_precision = 8 \<rparr>" "[double_12345_678]" 0 0 1 "[]"]
  by (simp add: show_nat_0)

text \<open>The row of that cell does not contain the fixed-notation text of the value.\<close>

theorem overflow_annotation_not_fixed:
  "\<not> sublist ''value: 12345.67800000''
      (m_table (snd (print_row double_ops 0 1 1
        \<lparr> m_table = [], m_data = Some [double_12345_678],
          m_data_arrangement = RowMajor, m_column_names = [''A''], m_name = ''T'',
          m_table_width = 7, m_column_width = 5, m_size = 1, m_cols = 1, m_rows = 1,
          m_precision = 8 \<rparr>)))"
proof -
  let ?p = "\<lparr> m_table = [], m_data = Some [double_12345_678],
          m_data_arrangement = RowMajor, m_column_names = [''A''], m_name = ''T'',
          m_table_width = 7, m_column_width = 5, m_size = 1, m_cols = 1, m_rows = 1,
          m_precision = 8 \<rparr>"
  have d: "m_data ?p = Some [double_12345_678]"
    by simp
  have b: "\<forall>j < unat (1 :: uint).
      unat ((0 :: uint) + of_nat j * uint_of_int 1) < length [double_12345_678]"
    by simp
  have "m_table (snd (print_row double_ops 0 1 1 ?p)) =
      ''|0.00000000|'' @ newline @ newline @ ''cell: 0 value: 12345.7'' @ newline"
    by (simp add: print_row_in_bounds [OF d b] row_text_def cell_text_def cell_note_def
        double_ops_def show_12345_678 setw_def int_of_uint_def show_nat_0)
  then show ?thesis
    by (simp add: newline_def sublist_code)
qed

section \<open>Rendering appends\<close>

lemma appendsI:
  assumes "\<And>s. \<exists>r t s0. rest s0 = rest s \<and> (\<forall>x. a (put x s) = (r, put (x @ t) s0))"
  shows "appends put rest a"
  using assms unfolding appends_def by blast

lemma appendsD:
  "appends put rest a \<Longrightarrow>
     \<exists>r t s0. rest s0 = rest s \<and> (\<forall>x. a (put x s) = (r, put (x @ t) s0))"
  unfolding appends_def by blast

lemma appends_run:
  assumes "\<forall>a \<in> set as. appends put rest a"
  shows "appends put rest (run as)"
  using assms
proof (induction as)
  case Nil
  show ?case
  proof (rule appendsI)
    fix s
    have "rest s = rest s \<and> (\<forall>x. run [] (put x s) = (Normal, put (x @ []) s))"
      by simp
    then show "\<exists>r t s0. rest s0 = rest s \<and> (\<forall>x. run [] (put x s) = (r, put (x @ t) s0))"
      by blast
  qed
next
  case (Cons a as)
  then have a: "appends put rest a" and as: "appends put rest (run as)"
    by simp_all
  show ?case
  proof (rule appendsI)
    fix s
    from appendsD [OF a, of s] obtain r t s0 where
      s0: "rest s0 = rest s" and step: "\<And>x. a (put x s) = (r, put (x @ t) s0)"
      by blast
    show "\<exists>r t s0. rest s0 = rest s \<and> (\<forall>x. run (a # as) (put x s) = (r, put (x @ t) s0))"
    proof (cases "r = Normal")
      case True
      from appendsD [OF as, of s0] obtain r' t' s1 where
        s1: "rest s1 = rest s0" and more: "\<And>x. run as (put x s0) = (r', put (x @ t') s1)"
        by blast
      have "rest s1 = rest s \<and> (\<forall>x. run (a # as) (put x s) = (r', put (x @ (t @ t')) s1))"
        using s0 s1 True by (simp add: run.simps(2) step more)
      then show ?thesis
        by blast
    next
      case False
      have "rest s0 = rest s \<and> (\<forall>x. run (a # as) (put x s) = (r, put (x @ t) s0))"
        using s0 False by (cases r) (simp_all add: run.simps(2) step)
      then show ?thesis
        by blast
    qed
  qed
qed

lemma appends_for_loop:
  assumes "\<And>i. appends put rest (body i)"
  shows "appends put rest (for_loop i n body)"
proof (cases "i \<le> n")
  case True
  have "for_loop i n body = run (map (\<lambda>k. body (of_nat k)) [unat i..<unat n])"
    using True by (intro ext) (rule for_loop_run)
  then show ?thesis
    using assms by (simp add: appends_run)
next
  case False
  show ?thesis
  proof (rule appendsI)
    fix s
    have "rest s = rest s \<and> (\<forall>x. for_loop i n body (put x s) = (Normal, put (x @ []) s))"
      using False less_imp_le [of i n] by (auto simp: for_loop.simps [of i n])
    then show "\<exists>r t s0. rest s0 = rest s \<and> (\<forall>x. for_loop i n body (put x s) = (r, put (x @ t) s0))"
      by blast
  qed
qed


lemma appends_reads:
  assumes "\<And>s x. a (put x s) = b s (put x s)" and "\<And>s. appends put rest (b s)"
  shows "appends put rest a"
proof (rule appendsI)
  fix s
  from appendsD [OF assms(2), of s s] show
    "\<exists>r t s0. rest s0 = rest s \<and> (\<forall>x. a (put x s) = (r, put (x @ t) s0))"
    by (simp add: assms(1))
qed

lemma appends_stop: "appends put rest (\<lambda>s. (r, s))"
proof (rule appendsI)
  fix s
  have "rest s = rest s \<and> (\<forall>x. (r, put x s) = (r, put (x @ []) s))"
    by simp
  then show "\<exists>r' t s0. rest s0 = rest s \<and> (\<forall>x. (r, put x s) = (r', put (x @ t) s0))"
    by blast
qed

text \<open>The member functions append to \<open>_table\<close> and change nothing else.\<close>

lemma appends_out: "appends put_table (put_table []) (out t)"
proof (rule appendsI)
  fix p :: "'a Plotter"
  have "put_table [] p = put_table [] p
      \<and> (\<forall>x. out t (put_table x p) = (Normal, put_table (x @ t) p))"
    by (simp add: out_def put_table_def)
  then show "\<exists>r t' s0. put_table [] s0 = put_table [] p
      \<and> (\<forall>x. out t (put_table x p) = (r, put_table (x @ t') s0))"
    by blast
qed

lemma appends_out_fill:
  "appends put_table (put_table []) (out_fill n c :: 'a Plotter action)"
proof (cases "std_string n c")
  case (Inl e)
  then have "(out_fill n c :: 'a Plotter action) = (\<lambda>p. (Threw e, p))"
    by (intro ext) (simp add: out_fill_def)
  then show ?thesis
    by (simp add: appends_stop)
next
  case (Inr t)
  then have "(out_fill n c :: 'a Plotter action) = out t"
    by (intro ext) (simp add: out_fill_def)
  then show ?thesis
    by (simp add: appends_out)
qed

lemmas appends_basic = appends_out appends_out_fill appends_run appends_for_loop appends_stop

lemma appends_print_endline: "appends put_table (put_table []) print_endline"
  by (rule appends_reads
      [where b = "\<lambda>s. run [out ''+'',
          out_fill (size_t_of_uint (m_table_width s - 2)) CHR ''-'', out ''+'', out newline]"])
    (simp_all add: print_endline_def put_table_def appends_basic)

lemma appends_print_table_header: "appends put_table (put_table []) print_table_header"
  by (rule appends_reads [where b = "\<lambda>s.
       (let avail = size_t_of_uint (m_table_width s) - of_nat (length (m_name s)) - 2;
            left_padding = int_of_size_t (avail div 2);
            right_padding = int_of_size_t (avail - size_t_of_int left_padding)
        in run [out newline, out ''+'',
                out_fill (size_t_of_uint (m_table_width s - 2)) CHR ''-'',
                out ''+'', out newline, out ''|'',
                out_fill (size_t_of_int left_padding) CHR '' '',
                out (m_name s),
                out_fill (size_t_of_int right_padding) CHR '' '',
                out ''|'', out newline, out ''+'',
                out_fill (size_t_of_uint (m_table_width s - 2)) CHR ''-'',
                out ''+'', out newline])"])
    (simp_all add: print_table_header_def put_table_def appends_basic Let_def)

lemma appends_column_header: "appends put_table (put_table []) (column_header i)"
  by (rule appends_reads [where b = "\<lambda>s.
       (if unat i < length (m_column_names s) then
          (let header = m_column_names s ! unat i;
               avail = size_t_of_uint (m_column_width s) - of_nat (length header);
               left_padding = int_of_size_t (avail div 2);
               right_padding = int_of_size_t (avail - size_t_of_int left_padding)
           in run [out_fill (size_t_of_int left_padding) CHR '' '',
                   out header,
                   out_fill (size_t_of_int right_padding) CHR '' '',
                   out ''|''])
        else (\<lambda>p. (Undefined, p)))"])
    (simp_all add: column_header_def put_table_def appends_basic Let_def)

lemma appends_print_columns_header: "appends put_table (put_table []) print_columns_header"
  by (rule appends_reads [where b = "\<lambda>s.
       run [out ''|'', for_loop 0 (m_cols s) column_header, out newline, print_endline]"])
    (simp_all add: print_columns_header_def put_table_def appends_basic
      appends_column_header appends_print_endline)


lemma appends_print_cell: "appends put_table2 rest2 (print_cell ops start stride j)"
proof (rule appendsI)
  fix s :: "'a Plotter \<times> string"
  obtain p nb where s: "s = (p, nb)"
    by (cases s)
  let ?k = "unat (start + j * uint_of_int stride)"
  show "\<exists>r t s0. rest2 s0 = rest2 s
      \<and> (\<forall>x. print_cell ops start stride j (put_table2 x s) = (r, put_table2 (x @ t) s0))"
  proof (cases "\<exists>buf. m_data p = Some buf \<and> ?k < length buf")
    case True
    then obtain buf where d: "m_data p = Some buf" and k: "?k < length buf"
      by blast
    have "rest2 (p, nb @ cell_note ops p (unat j) (buf ! ?k)) = rest2 s
        \<and> (\<forall>x. print_cell ops start stride j (put_table2 x s) =
              (Normal, put_table2 (x @ cell_text ops p (buf ! ?k))
                 (p, nb @ cell_note ops p (unat j) (buf ! ?k))))"
      using d k by (simp add: s rest2_def put_table2_def print_cell_in_bounds [where buf = buf])
    then show ?thesis
      by blast
  next
    case False
    have "rest2 s = rest2 s
        \<and> (\<forall>x. print_cell ops start stride j (put_table2 x s) =
              (Undefined, put_table2 (x @ []) s))"
      using False
      by (auto simp: s put_table2_def print_cell_def Let_def split: option.splits)
    then show ?thesis
      by blast
  qed
qed

lemma appends_print_row:
  "appends put_table (put_table []) (print_row ops start cell_count stride)"
proof (rule appendsI)
  fix p :: "'a Plotter"
  have "appends put_table2 rest2 (for_loop 0 cell_count (print_cell ops start stride))"
    by (intro appends_for_loop appends_print_cell)
  from appendsD [OF this, of "(p, [])"] obtain r t p0 nb where
    rest: "put_table [] p0 = put_table [] p" and
    loop: "\<And>x. for_loop 0 cell_count (print_cell ops start stride) (p\<lparr>m_table := x\<rparr>, [])
             = (r, (p0\<lparr>m_table := x @ t\<rparr>, nb))"
    by (auto simp: rest2_def put_table2_def)
  have same: "p0\<lparr>m_table := y\<rparr> = p\<lparr>m_table := y\<rparr>" for y
    using arg_cong [OF rest, of "\<lambda>q. q\<lparr>m_table := y\<rparr>"] by (simp add: put_table_def)
  let ?t = "''|'' @ t @ (if r = Normal then nb @ newline else [])"
  have "print_row ops start cell_count stride (put_table x p) = (r, put_table (x @ ?t) p)" for x
    by (cases r)
      (simp_all add: print_row_def out_def put_table_def loop same run_out)
  then have "put_table [] p = put_table [] p
      \<and> (\<forall>x. print_row ops start cell_count stride (put_table x p) = (r, put_table (x @ ?t) p))"
    by simp
  then show "\<exists>r t s0. put_table [] s0 = put_table [] p
      \<and> (\<forall>x. print_row ops start cell_count stride (put_table x p) = (r, put_table (x @ t) s0))"
    by blast
qed

lemma appends_print_content: "appends put_table (put_table []) (print_content ops)"
  by (rule appends_reads [where b = "\<lambda>s.
       (if m_data_arrangement s = RowMajor then
          run [for_loop 0 (m_rows s) (\<lambda>i. print_row ops (i * m_cols s) (m_cols s) 1),
               print_endline]
        else
          run [for_loop 0 (m_rows s)
                 (\<lambda>i. print_row ops i (m_cols s) (int_of_uint (m_rows s))),
               print_endline])"])
    (simp_all add: print_content_def put_table_def appends_basic appends_print_row
      appends_print_endline)

lemma appends_render: "appends put_table (put_table []) (render ops)"
  unfolding render_def
  by (simp add: appends_run appends_print_table_header appends_print_columns_header
      appends_print_content)

text \<open>What one rendering appends does not depend on what the stream holds.\<close>

lemma render_appends:
  "\<exists>r t. \<forall>x. render ops (p\<lparr>m_table := x\<rparr>) = (r, p\<lparr>m_table := x @ t\<rparr>)"
proof -
  from appendsD [OF appends_render, of p ops] obtain r t p0 where
    rest: "put_table [] p0 = put_table [] p" and
    eq: "\<And>x. render ops (put_table x p) = (r, put_table (x @ t) p0)"
    by blast
  have "p0\<lparr>m_table := y\<rparr> = p\<lparr>m_table := y\<rparr>" for y
    using arg_cong [OF rest, of "\<lambda>q. q\<lparr>m_table := y\<rparr>"] by (simp add: put_table_def)
  with eq have "\<forall>x. render ops (p\<lparr>m_table := x\<rparr>) = (r, p\<lparr>m_table := x @ t\<rparr>)"
    by (simp add: put_table_def)
  then show ?thesis
    by blast
qed

section \<open>Calling the rendering twice\<close>

text \<open>
  C9. \<open>get_table\<close> never empties \<open>_table\<close>: when the first call on a constructed plotter
  returns \<open>s1\<close>, the second call returns \<open>s1\<close> followed by the same rendering once
  more, and the stream holds both.
\<close>

theorem second_call_appends:
  assumes "Plotter_ctor d name cn tw sz arr = Inr p"
    and "get_table ops p w = Inr (s1, p1, w1)"
  shows "\<exists>w2. get_table ops p1 w1 = Inr (s1 @ s1, p1\<lparr>m_table := s1 @ s1\<rparr>, w2)"
proof -
  from assms(1) have "m_table p = []"
    by (simp add: ctor_data)
  then have p: "p\<lparr>m_table := []\<rparr> = p"
    by simp
  from render_appends [of ops p] obtain r t where
    rt: "\<And>x. render ops (p\<lparr>m_table := x\<rparr>) = (r, p\<lparr>m_table := x @ t\<rparr>)"
    by blast
  from rt [of "[]"] p have first: "render ops p = (r, p\<lparr>m_table := t\<rparr>)"
    by simp
  with assms(2) have r: "r \<noteq> Undefined"
    by (auto simp: get_table_def)
  from first assms(2) r have s1: "s1 = t @ newline" and p1: "p1 = p\<lparr>m_table := t @ newline\<rparr>"
    by (cases r; simp add: get_table_def Let_def)+
  from rt [of "t @ newline"] r show ?thesis
    by (cases r) (simp_all add: get_table_def Let_def s1 p1)
qed


lemmas render_defs =
  render_def print_table_header_def print_columns_header_def column_header_def
  print_endline_def run.simps(2) out_def out_fill_def std_string_def string_max_size_def
  size_t_of_uint_def size_t_of_int_def int_of_size_t_def for_loop_0_run Let_def
  replicate_numeral

lemmas text_defs =
  row_text_def cell_text_def cell_note_def border_text_def setw_def int_of_uint_def
  int_ops_def show_int_def show_nat_numeral show_nat_0 show_nat_digit digit_char_simps
  replicate_numeral

lemma upt_2: "[0..<2] = [0, 1 :: nat]"
  by (simp add: upt_rec)

lemma run_append:
  "run (as @ bs) s = (case run as s of (Normal, s') \<Rightarrow> run bs s' | r \<Rightarrow> r)"
  by (induction as arbitrary: s) (auto simp: run.simps(2) split: prod.splits status.splits)

lemma run_single: "run [a] s = a s"
  by (auto simp: run.simps(2) split: prod.splits status.splits)

lemma example_ctor:
  "Plotter_ctor (Some [1, 2, 3, 4]) ''T'' [''A'', ''B''] 13 4 RowMajor = Inr example_plotter"
  by (simp add: ctor_defs example_plotter_def)

lemma example_content:
  "print_content int_ops (example_plotter\<lparr>m_table := x\<rparr>) =
     (Normal, example_plotter\<lparr>m_table := x @ ''|    1|    2|'' @ newline
        @ ''|    3|    4|'' @ newline @ ''+-----------+'' @ newline\<rparr>)"
proof -
  have d: "m_data example_plotter = Some [1, 2, 3, 4]"
    by (simp add: example_plotter_def)
  have b: "\<forall>i < unat (m_rows example_plotter). \<forall>j < unat (m_cols example_plotter).
      unat (cell_index example_plotter (of_nat i) (of_nat j)) < length [1, 2, 3, 4 :: int]"
  proof (intro allI impI)
    fix i j
    assume "i < unat (m_rows example_plotter)" "j < unat (m_cols example_plotter)"
    then have "i = 0 \<or> i = 1" "j = 0 \<or> j = 1"
      by (auto simp: example_plotter_def)
    then show "unat (cell_index example_plotter (of_nat i) (of_nat j))
        < length [1, 2, 3, 4 :: int]"
      by (auto simp: cell_index_def example_plotter_def)
  qed
  from print_content_in_bounds [OF d b, of int_ops x] show ?thesis
    by (simp add: upt_2 text_defs cell_index_def example_plotter_def)
qed

lemma example_render:
  "render int_ops (example_plotter\<lparr>m_table := x\<rparr>) =
     (Normal, example_plotter\<lparr>m_table := x @ example_table\<rparr>)"
proof -
  have "run [print_table_header, print_columns_header] (example_plotter\<lparr>m_table := x\<rparr>) =
      (Normal, example_plotter\<lparr>m_table := x @ newline @ ''+-----------+'' @ newline
         @ ''|     T     |'' @ newline @ ''+-----------+'' @ newline
         @ ''|  A  |  B  |'' @ newline @ ''+-----------+'' @ newline\<rparr>)"
    by (simp add: render_defs upt_2 example_plotter_def)
  then show ?thesis
    using run_append [of "[print_table_header, print_columns_header]" "[print_content int_ops]"
        "example_plotter\<lparr>m_table := x\<rparr>"]
    by (simp add: render_def run_single example_content example_table_def)
qed

theorem second_call_appends_witness:
  "\<exists>w2. get_table int_ops (example_plotter\<lparr>m_table := example_table @ newline\<rparr>)
          \<lparr> cout = [], cerr = [] \<rparr>
     = Inr ((example_table @ newline) @ (example_table @ newline),
            example_plotter\<lparr>m_table := (example_table @ newline) @ (example_table @ newline)\<rparr>,
            w2)"
proof -
  have "get_table int_ops example_plotter \<lparr> cout = [], cerr = [] \<rparr>
      = Inr (example_table @ newline, example_plotter\<lparr>m_table := example_table @ newline\<rparr>,
             \<lparr> cout = [], cerr = [] \<rparr>)"
    using example_render [of "[]"] by (simp add: get_table_def example_plotter_def)
  from second_call_appends [OF example_ctor this] show ?thesis
    by simp
qed

section \<open>Exceptions while rendering\<close>

text \<open>
  Neither \<open>get_table\<close> nor \<open>print_table\<close> ends with an exception. When a call inside
  the \<open>try\<close> block throws, \<open>get_table\<close> writes its message to \<open>std::cerr\<close> and returns
  the text appended so far and a newline; \<open>print_table\<close> writes its message to
  \<open>std::cout\<close>, and then the text appended so far and a newline, to \<open>std::cout\<close> too.
\<close>

lemma render_exceptions_caught:
  "get_table ops p w \<noteq> Inl (Thrown e)
   \<and> print_table ops p w \<noteq> Inl (Thrown e)
   \<and> (render ops p = (Threw e, p') \<longrightarrow>
        get_table ops p w =
          Inr (m_table p' @ newline, p'\<lparr>m_table := m_table p' @ newline\<rparr>,
               w\<lparr>cerr := cerr w @ get_table_diagnostic e (m_name p')\<rparr>)
        \<and> print_table ops p w =
          Inr (p'\<lparr>m_table := m_table p' @ newline\<rparr>,
               w\<lparr>cout := cout w @ print_table_diagnostic e @ m_table p' @ newline\<rparr>))
   \<and> (render ops p = (Normal, p') \<longrightarrow>
        get_table ops p w =
          Inr (m_table p' @ newline, p'\<lparr>m_table := m_table p' @ newline\<rparr>, w)
        \<and> print_table ops p w =
          Inr (p'\<lparr>m_table := m_table p' @ newline\<rparr>,
               w\<lparr>cout := cout w @ m_table p' @ newline\<rparr>))"
proof -
  obtain r q where rq: "render ops p = (r, q)"
    by (cases "render ops p")
  show ?thesis
  proof (cases r)
    case Normal
    with rq show ?thesis
      by (simp add: get_table_def print_table_def Let_def)
  next
    case (Threw e')
    with rq show ?thesis
      by (cases e') (auto simp: get_table_def print_table_def Let_def
          get_table_diagnostic_def print_table_diagnostic_def)
  next
    case Undefined
    with rq show ?thesis
      by (simp add: get_table_def print_table_def)
  qed
qed

lemma narrow_render:
  "render int_ops narrow_plotter =
     (Threw (Length_error ''basic_string::_M_create''),
      narrow_plotter\<lparr>m_table := newline @ ''+--+'' @ newline @ ''|''\<rparr>)"
  by (simp add: render_defs narrow_plotter_def)

lemma narrow_ctor:
  "Plotter_ctor (Some [1, 2, 3, 4]) ''Hello'' [''A'', ''B''] 4 4 RowMajor = Inr narrow_plotter"
  by (simp add: ctor_defs narrow_plotter_def)

lemma narrow_name: "m_name narrow_plotter = ''Hello''"
  by (simp add: narrow_plotter_def)

lemma render_exceptions_caught_witness:
  "get_table int_ops narrow_plotter \<lparr> cout = [], cerr = [] \<rparr> =
     Inr (newline @ ''+--+'' @ newline @ ''|'' @ newline,
          narrow_plotter\<lparr>m_table := newline @ ''+--+'' @ newline @ ''|'' @ newline\<rparr>,
          \<lparr> cout = [],
            cerr = ''Error printing table: Hello'' @ newline @ ''basic_string::_M_create''
              @ newline \<rparr>)"
  using render_exceptions_caught
    [of int_ops narrow_plotter "\<lparr> cout = [], cerr = [] \<rparr>"
      "Length_error ''basic_string::_M_create''"
      "narrow_plotter\<lparr>m_table := newline @ ''+--+'' @ newline @ ''|''\<rparr>"]
  by (simp add: narrow_render get_table_diagnostic_def narrow_name)

text \<open>
  C7. An exception inside the rendering is to be reported on a side channel, and the call
  is to print the text built so far and a newline. \<open>get_table\<close> does so, on \<open>std::cerr\<close>;
  the two handlers of \<open>print_table\<close> write to \<open>std::cout\<close>. A name wider than the table
  makes \<open>std::string\<close> throw in the banner: \<open>print_table\<close> then leaves \<open>std::cerr\<close>
  empty and prints its message on \<open>std::cout\<close>, in front of the table text, so that what
  it prints is not the table text alone.
\<close>

theorem print_table_diagnostic_on_cout:
  "Plotter_ctor (Some [1, 2, 3, 4]) ''Hello'' [''A'', ''B''] 4 4 RowMajor = Inr narrow_plotter
   \<and> print_table int_ops narrow_plotter \<lparr> cout = [], cerr = [] \<rparr> =
     Inr (narrow_plotter\<lparr>m_table := newline @ ''+--+'' @ newline @ ''|'' @ newline\<rparr>,
          \<lparr> cout = ''Error printing table: basic_string::_M_create'' @ newline @ ''+--+''
              @ newline @ ''|'' @ newline,
            cerr = [] \<rparr>)
   \<and> ''Error printing table: basic_string::_M_create'' @ newline @ ''+--+''
              @ newline @ ''|'' @ newline
     \<noteq> newline @ ''+--+'' @ newline @ ''|'' @ newline"
  by (simp add: print_table_def narrow_render Let_def newline_def narrow_ctor)

section \<open>Reads and the size of the buffer\<close>

lemma big_ctor:
  "Plotter_ctor (Some big_buffer) ''T'' [''A'', ''B''] 13 2147483648 ColumnMajor
     = Inr big_plotter"
  by (simp add: ctor_defs big_plotter_def)

lemma big_header:
  "run [print_table_header, print_columns_header] big_plotter =
     (Normal, big_plotter\<lparr>m_table := newline @ ''+-----------+'' @ newline
         @ ''|     T     |'' @ newline @ ''+-----------+'' @ newline
         @ ''|  A  |  B  |'' @ newline @ ''+-----------+'' @ newline\<rparr>)"
  by (simp add: render_defs upt_2 big_plotter_def)

lemma big_first_row:
  "fst (print_row int_ops 0 2 (int_of_uint 3221225472) (big_plotter\<lparr>m_table := x\<rparr>))
     = Undefined"
proof -
  let ?p = "big_plotter\<lparr>m_table := x @ ''|''\<rparr>"
  have d: "m_data ?p = Some big_buffer"
    by (simp add: big_plotter_def)
  have c0: "unat ((0 :: uint) + 0 * uint_of_int (int_of_uint 3221225472)) < length big_buffer"
    by (simp add: big_buffer_def)
  have c1: "\<not> unat ((0 :: uint) + 1 * uint_of_int (int_of_uint 3221225472)) < length big_buffer"
    by (simp add: big_buffer_def)
  have data: "m_data (big_plotter\<lparr>m_table := y\<rparr>) = Some big_buffer" for y
    by (simp add: big_plotter_def)
  show ?thesis
    by (simp add: print_row_def out_def for_loop_0_run upt_2 run.simps(2)
        print_cell_in_bounds [OF d c0] print_cell_out_of_bounds [OF data c1])
qed

lemma big_content: "fst (print_content int_ops (big_plotter\<lparr>m_table := x\<rparr>)) = Undefined"
proof -
  have rows: "m_rows big_plotter = 3221225472" "m_cols big_plotter = 2"
    "m_data_arrangement big_plotter = ColumnMajor"
    by (simp_all add: big_plotter_def)
  have "(0 :: uint) < 3221225472"
    by simp
  then show ?thesis
    using big_first_row [of x]
    by (auto simp: print_content_def rows run.simps(2) for_loop.simps [of 0]
        split: prod.splits status.splits)
qed

lemma sint_small: "unat (w :: uint) < 2 ^ 31 \<Longrightarrow> sint w = int (unat w)"
proof -
  assume "unat w < 2 ^ 31"
  then have "uint w < 2 ^ 31"
    by (metis of_nat_less_numeral_power_cancel_iff of_nat_unat)
  have "- (2 ^ 31) \<le> (0 :: int)"
    by simp
  also have "0 \<le> uint w"
    by simp
  finally have "signed_take_bit 31 (uint w) = uint w"
    using \<open>uint w < 2 ^ 31\<close> by (intro signed_take_bit_int_eq_self)
  then show ?thesis
    by (simp add: sint_uint)
qed

text \<open>Below \<open>2 ^ 31\<close> the conversions to \<open>int\<close> change nothing.\<close>

lemma rows_in_int_range:
  assumes "Plotter_ctor d name cn tw sz arr = Inr p"
    and "unat sz < 2 ^ 31" and "length cn < 2 ^ 31"
  shows "unat (m_cols p) = length cn" and "unat (m_rows p) = unat sz div length cn"
proof -
  let ?c = "of_nat (length cn) :: uint"
  have c: "unat ?c = length cn"
    using assms(3) by (simp add: unat_of_nat)
  then have sc: "sint ?c = int (length cn)"
    using assms(3) sint_small [of ?c] by simp
  have ss: "sint sz = int (unat sz)"
    using assms(2) by (rule sint_small)
  from assms(1) obtain rows where
    cols: "m_cols p = ?c" and
    rows: "calculate_rows (sint sz) (sint ?c) = Some rows" and
    field: "m_rows p = word_of_int rows"
    by (auto simp: Plotter_ctor_def Let_def split: option.splits)
  from rows have "rows = int (unat sz) sdiv int (length cn)"
    by (simp add: calculate_rows_def int_div_def ss sc split: if_splits)
  then have "rows = int (unat sz div length cn)"
    by (simp add: signed_divide_int_def zdiv_int sgn_if)
  then have "m_rows p = of_nat (unat sz div length cn)"
    by (simp add: field)
  moreover have "unat sz div length cn < 2 ^ 32"
  proof -
    have "unat sz div length cn \<le> unat sz"
      by (rule div_le_dividend)
    also have "unat sz < 2 ^ 32"
      using assms(2) by simp
    finally show ?thesis .
  qed
  ultimately show "unat (m_rows p) = unat sz div length cn"
    by (simp add: unat_of_nat)
  show "unat (m_cols p) = length cn"
    by (simp add: cols c)
qed

lemma reads_in_bounds_in_int_range:
  assumes "Plotter_ctor d name cn tw sz arr = Inr p"
    and "unat sz < 2 ^ 31" and "length cn < 2 ^ 31"
    and "i < unat (m_rows p)" and "j < unat (m_cols p)"
  shows "unat (cell_index p (of_nat i) (of_nat j)) < unat sz"
proof -
  let ?r = "unat (m_rows p)" and ?c = "unat (m_cols p)"
  have rc: "?r * ?c \<le> unat sz"
    using rows_in_int_range [OF assms(1-3)] by simp
  then have "?r * ?c \<le> 2 ^ 32"
    using assms(2) by simp
  from cell_index_nat [OF this assms(4,5)]
  have idx: "unat (cell_index p (of_nat i) (of_nat j)) =
      (case m_data_arrangement p of RowMajor \<Rightarrow> i * ?c + j | ColumnMajor \<Rightarrow> i + j * ?r)" .
  have "Suc i * ?c \<le> ?r * ?c" "Suc j * ?r \<le> ?c * ?r"
    using assms(4,5) by (simp_all only: mult_le_mono1 Suc_leI)
  then have "i * ?c + j < ?r * ?c" "i + j * ?r < ?r * ?c"
    using assms(4,5) by (simp_all add: mult.commute)
  with rc idx show ?thesis
    by (simp split: DataArrangement.splits)
qed


lemma appends_frame:
  assumes "appends put_table (put_table []) a"
  shows "put_table [] (snd (a s)) = put_table [] s"
proof -
  from appendsD [OF assms, of s] obtain r t s0 where
    "put_table [] s0 = put_table [] s" "a (put_table (m_table s) s) = (r, put_table (m_table s @ t) s0)"
    by blast
  moreover have "put_table (m_table s) s = s"
    by (simp add: put_table_def)
  ultimately show ?thesis
    using arg_cong [of "put_table [] s0" "put_table [] s" "put_table []"]
    by (simp add: put_table_def)
qed

text \<open>A sequence of appending steps has defined behaviour if each step has, on every
  state that differs from the first one in the text of the stream only.\<close>

lemma run_defined:
  assumes "\<forall>a \<in> set as. appends put_table (put_table []) a"
    and "\<forall>a \<in> set as. \<forall>s. put_table [] s = put_table [] p \<longrightarrow> fst (a s) \<noteq> Undefined"
    and "put_table [] s = put_table [] p"
  shows "fst (run as s) \<noteq> Undefined"
  using assms
proof (induction as arbitrary: s)
  case Nil
  then show ?case by simp
next
  case (Cons a as)
  obtain r s' where step: "a s = (r, s')"
    by (cases "a s")
  have r: "r \<noteq> Undefined"
    using Cons.prems(2,3) step by force
  have "put_table [] s' = put_table [] p"
    using appends_frame [of a s] Cons.prems(1,3) step by simp
  then have "fst (run as s') \<noteq> Undefined"
    using Cons.prems by (intro Cons.IH) simp_all
  then show ?case
    using r by (cases r) (simp_all add: run.simps(2) step)
qed

lemma out_defined: "fst (out t s) \<noteq> Undefined"
  by (simp add: out_def)

lemma out_fill_defined: "fst (out_fill n c s) \<noteq> Undefined"
  by (simp add: out_fill_def out_def split: sum.splits)

lemma print_endline_defined: "fst (print_endline s) \<noteq> Undefined"
  by (simp add: print_endline_text)

lemma print_table_header_defined: "fst (print_table_header s) \<noteq> Undefined"
  unfolding print_table_header_def Let_def
  by (rule run_defined [where p = s]) (auto simp: appends_basic out_defined out_fill_defined)

lemma column_header_defined:
  "unat i < length (m_column_names s) \<Longrightarrow> fst (column_header i s) \<noteq> Undefined"
  unfolding column_header_def Let_def
  by (simp, rule run_defined [where p = s])
    (auto simp: appends_basic out_defined out_fill_defined)


lemma put_table_same:
  "put_table [] s = put_table [] p \<Longrightarrow>
     m_column_names s = m_column_names p \<and> m_cols s = m_cols p \<and> m_data s = m_data p
     \<and> m_rows s = m_rows p \<and> m_data_arrangement s = m_data_arrangement p
     \<and> s = p\<lparr>m_table := m_table s\<rparr>"
proof -
  assume "put_table [] s = put_table [] p"
  then have "put_table (m_table s) (put_table [] s) = put_table (m_table s) (put_table [] p)"
    by simp
  then have "s = p\<lparr>m_table := m_table s\<rparr>"
    by (simp add: put_table_def)
  then show ?thesis
    by (metis Plotter.select_convs Plotter.surjective Plotter.update_convs(1))
qed

lemma print_columns_header_defined:
  fixes p :: "'a Plotter"
  assumes "unat (m_cols p) \<le> length (m_column_names p)"
  shows "fst (print_columns_header p) \<noteq> Undefined"
proof -
  have loop: "for_loop 0 (m_cols p) (column_header :: uint \<Rightarrow> 'a Plotter action) =
      run (map (\<lambda>k. column_header (of_nat k) :: 'a Plotter action) [0..<unat (m_cols p)])"
    by (rule ext) (rule for_loop_0_run)
  have "fst (run (map (\<lambda>k. column_header (of_nat k) :: 'a Plotter action) [0..<unat (m_cols p)]) s) \<noteq> Undefined"
    if "put_table [] s = put_table [] p" for s
  proof (rule run_defined [OF _ _ that])
    show "\<forall>a \<in> set (map (\<lambda>k. column_header (of_nat k) :: 'a Plotter action) [0..<unat (m_cols p)]).
        appends put_table (put_table []) a"
      by (simp add: appends_column_header)
    show "\<forall>a \<in> set (map (\<lambda>k. column_header (of_nat k) :: 'a Plotter action) [0..<unat (m_cols p)]).
        \<forall>s. put_table [] s = put_table [] p \<longrightarrow> fst (a s) \<noteq> Undefined"
    proof (intro ballI allI impI)
      fix a s
      assume a: "a \<in> set (map (\<lambda>k. column_header (of_nat k) :: 'a Plotter action) [0..<unat (m_cols p)])"
        and s: "put_table [] s = put_table [] p"
      from a obtain k where k: "k < unat (m_cols p)" and ak: "a = column_header (of_nat k)"
        by auto
      have "unat (of_nat k :: uint) < length (m_column_names s)"
        using k assms put_table_same [OF s] by (simp add: unat_of_nat_below)
      then show "fst (a s) \<noteq> Undefined"
        unfolding ak by (rule column_header_defined)
    qed
  qed
  moreover have "appends put_table (put_table [])
      (run (map (\<lambda>k. column_header (of_nat k) :: 'a Plotter action) [0..<unat (m_cols p)]))"
    by (simp add: appends_run appends_column_header)
  ultimately show ?thesis
    unfolding print_columns_header_def loop
    by (intro run_defined [where p = p])
      (auto simp: appends_out appends_print_endline out_defined print_endline_defined)
qed

text \<open>
  For a size and a number of labels below \<open>2 ^ 31\<close> and a buffer of at least \<open>size\<close>
  elements, rendering stays inside the buffer.
\<close>

lemma render_defined_in_int_range:
  assumes "Plotter_ctor (Some buf) name cn tw sz arr = Inr p"
    and "unat sz < 2 ^ 31" and "length cn < 2 ^ 31" and "unat sz \<le> length buf"
  shows "get_table ops p w \<noteq> Inl Undefined_behaviour"
proof -
  note c = ctor_data [OF assms(1)]
  have d: "m_data p = Some buf"
    using c by simp
  have b: "\<forall>i < unat (m_rows p). \<forall>j < unat (m_cols p).
      unat (cell_index p (of_nat i) (of_nat j)) < length buf"
    using reads_in_bounds_in_int_range [OF assms(1-3)] assms(4) by fastforce
  have content: "fst (print_content ops s) \<noteq> Undefined"
    if "put_table [] s = put_table [] p" for s
    using put_table_same [OF that] print_content_in_bounds [OF d b, of ops "m_table s"]
    by simp
  have cols: "unat (m_cols p) \<le> length (m_column_names p)"
    using rows_in_int_range(1) [OF assms(1-3)] c by simp
  have header: "fst (print_columns_header s) \<noteq> Undefined"
    if "put_table [] s = put_table [] p" for s
    using put_table_same [OF that] cols by (intro print_columns_header_defined) simp
  have "fst (render ops p) \<noteq> Undefined"
    unfolding render_def
    by (rule run_defined [where p = p])
      (auto simp: appends_print_table_header appends_print_columns_header
        appends_print_content print_table_header_defined header content)
  then show ?thesis
    by (cases "render ops p") (auto simp: get_table_def Let_def split: status.splits)
qed

lemma big_render: "fst (render int_ops big_plotter) = Undefined"
  using run_append [of "[print_table_header, print_columns_header]" "[print_content int_ops]"
      big_plotter] big_content
  by (simp add: render_def run_single big_header)

lemma ctor_traps_at_4294967296_names:
  assumes "tw \<noteq> 0" and "sz \<noteq> 0"
  shows "Plotter_ctor (Some buf) name (replicate 4294967296 label) tw sz arr
     = Inl Undefined_behaviour"
proof -
  have "(of_nat (length (replicate 4294967296 label)) :: uint) = 0"
    by simp
  then show ?thesis
    using assms
    by (simp add: Plotter_ctor_def validate_inputs_throw_exception_def calculate_rows_def
        int_div_def Let_def del: length_replicate)
qed

text \<open>
  C6. A plotter that passes the four checks of the constructor is to be usable. The
  buffer of \<open>2 ^ 31\<close> elements in two columns passes them and the constructor returns its
  plotter, with \<open>_rows = 3221225472\<close> from the \<open>int\<close> division of \<open>calculate_rows\<close>;
  \<open>print_table\<close> on that plotter reads outside the buffer and has undefined behaviour.
\<close>

theorem constructed_plotter_not_usable:
  "validate_inputs_throw_exception (Some big_buffer) [''A'', ''B''] 13 2147483648 = None
   \<and> Plotter_ctor (Some big_buffer) ''T'' [''A'', ''B''] 13 2147483648 ColumnMajor
       = Inr big_plotter
   \<and> length big_buffer = unat (m_size big_plotter)
   \<and> print_table int_ops big_plotter w = Inl Undefined_behaviour"
proof -
  have "validate_inputs_throw_exception (Some big_buffer) [''A'', ''B''] 13 2147483648 = None"
    by (simp add: validate_inputs_throw_exception_def)
  moreover have "length big_buffer = unat (m_size big_plotter)"
    by (simp add: big_buffer_def big_plotter_def)
  moreover have "print_table int_ops big_plotter w = Inl Undefined_behaviour"
    using big_render by (cases "render int_ops big_plotter") (simp add: print_table_def)
  ultimately show ?thesis
    using big_ctor by simp
qed

text \<open>
  C10. The bound on the indices rests on \<open>rows = size / cols\<close>, which the \<open>int\<close>
  division of \<open>calculate_rows\<close> gives below \<open>2 ^ 31\<close> only. A buffer of \<open>2 ^ 31\<close>
  elements in two columns gets \<open>_rows = 3221225472\<close>; the second cell of the first
  \<open>ColumnMajor\<close> row is then read at index 3221225472, beyond the buffer, and
  \<open>get_table\<close> has undefined behaviour.
\<close>

theorem read_out_of_bounds_at_size_2147483648:
  "Plotter_ctor (Some big_buffer) ''T'' [''A'', ''B''] 13 2147483648 ColumnMajor
     = Inr big_plotter
   \<and> length big_buffer = unat (m_size big_plotter)
   \<and> get_table int_ops big_plotter w = Inl Undefined_behaviour"
proof -
  have "length big_buffer = unat (m_size big_plotter)"
    by (simp add: big_buffer_def big_plotter_def)
  moreover have "get_table int_ops big_plotter w = Inl Undefined_behaviour"
    using big_render by (cases "render int_ops big_plotter") (simp add: get_table_def)
  ultimately show ?thesis
    using big_ctor by simp
qed

end
